theory Spec2Isabelle
  imports Complex_Main "HOL-Library.Sublist" "HOL-Library.Log_Nat"
begin

section \<open>Data model\<close>

text \<open>
  Modelled from the spec: the article record of the external news provider, whose
  declaration is not part of the program. The specification's data model gives an article
  the string fields title, description, url, publishedAt and sourceName. The program reads
  an article only through \<^verbatim>\<open>article.get(key, default)\<close>, so each field is an optional
  string: \<open>None\<close> is an absent key, for which \<^verbatim>\<open>get\<close> returns the default.
\<close>

record article =
  title :: "string option"
  description :: "string option"
  url :: "string option"
  publishedAt :: "string option"
  source_name :: "string option"

text \<open>\<^verbatim>\<open>d.get(key, default)\<close> on a field that may be absent.\<close>

definition dict_get :: "'a option \<Rightarrow> 'a \<Rightarrow> 'a" where
  "dict_get v dflt = (case v of None \<Rightarrow> dflt | Some x \<Rightarrow> x)"

text \<open>
  The outcome of one request to the news provider. \<^verbatim>\<open>requests.get\<close> or
  \<^verbatim>\<open>response.json()\<close> raises (\<open>Raises\<close>); or a JSON object arrives whose
  \<^verbatim>\<open>status\<close> and \<^verbatim>\<open>articles\<close> keys may each be absent (\<open>Response\<close>); or a JSON
  object arrives with status \<^verbatim>\<open>"ok"\<close> whose article list holds, after the given
  articles, an element whose reading raises, such as an element that is not an object
  (\<open>Raises_in_batch\<close>).
\<close>

datatype query_result =
  Raises
| Response "string option" "article list option"
| Raises_in_batch "article list"

text \<open>
  The instance state of \<^verbatim>\<open>StockNewsAnalyzer\<close>. The price table of the external price
  provider is kept as the sequence of its closing prices, oldest first, each a rational
  that stands for the double-precision number nearest to it;
  \<open>stock_data = None\<close> is the state before \<^verbatim>\<open>fetch_stock_data\<close> has run.
\<close>

record analyzer =
  ticker :: string
  news_api_key :: string
  stock_data :: "rat list option"
  news_articles :: "article list"

definition init :: "string \<Rightarrow> string \<Rightarrow> analyzer" where
  "init t k = \<lparr>ticker = t, news_api_key = k, stock_data = None, news_articles = []\<rparr>"

definition fetch_stock_data :: "rat list \<Rightarrow> analyzer \<Rightarrow> analyzer" where
  "fetch_stock_data history st = st\<lparr>stock_data := Some history\<rparr>"

section \<open>Fetching news: the query ladder\<close>

text \<open>The five queries of \<^verbatim>\<open>fetch_news\<close>, in the order the loop issues them.\<close>

definition search_queries :: "string \<Rightarrow> string \<Rightarrow> string list" where
  "search_queries company_name ticker_short =
     [''('' @ company_name @ '' OR '' @ ticker_short @ '') AND (stock OR share OR market)'',
      company_name @ '' stock'',
      ticker_short @ '' share market'',
      company_name,
      ticker_short]"

text \<open>
  The inner loop over one response's articles (lines 104 to 111). The state is the pair
  \<open>(all_articles, seen_urls)\<close>. An article is appended when its url is truthy (a non-empty
  string) and not yet seen; the loop breaks as soon as 20 articles are held.
\<close>

fun admit_batch :: "article list \<Rightarrow> article list \<times> string set \<Rightarrow> article list \<times> string set" where
  "admit_batch [] (all_articles, seen_urls) = (all_articles, seen_urls)"
| "admit_batch (a # rest) (all_articles, seen_urls) =
     (let article_url = dict_get (url a) [] in
      if article_url \<noteq> [] \<and> article_url \<notin> seen_urls then
        (if length (all_articles @ [a]) \<ge> 20
         then (all_articles @ [a], insert article_url seen_urls)
         else admit_batch rest (all_articles @ [a], insert article_url seen_urls))
      else admit_batch rest (all_articles, seen_urls))"

text \<open>
  One iteration of the outer loop's body after the cap test (lines 97 to 114): an exception
  is swallowed by \<^verbatim>\<open>continue\<close>, a status other than \<^verbatim>\<open>"ok"\<close> is skipped, and an
  \<^verbatim>\<open>"ok"\<close> response has its articles (default: none) run through the inner loop.
  The \<^verbatim>\<open>try\<close> encloses the inner loop: when an element of the list raises, the
  articles before it have gone through the inner loop and what they admitted is kept; the
  rest of the list is dropped. (If the cap is reached before that element, the inner loop
  has stopped and nothing is raised; the state is the same.)
\<close>

fun process_query :: "query_result \<Rightarrow> article list \<times> string set \<Rightarrow> article list \<times> string set" where
  "process_query Raises s = s"
| "process_query (Response status arts) s =
     (if status = Some ''ok'' then admit_batch (dict_get arts []) s else s)"
| "process_query (Raises_in_batch arts) s = admit_batch arts s"

text \<open>
  The outer loop over the queries (lines 83 to 114), given the outcome of each query's
  request in ladder order. It breaks before a request once 20 articles are held.
\<close>

fun fetch_loop :: "query_result list \<Rightarrow> article list \<times> string set \<Rightarrow> article list \<times> string set" where
  "fetch_loop [] s = s"
| "fetch_loop (r # rs) s =
     (if length (fst s) \<ge> 20 then s else fetch_loop rs (process_query r s))"

text \<open>
  \<^verbatim>\<open>self.ticker.replace('.NS', '')\<close>: every occurrence of the exchange suffix is
  removed, scanning from the left.
\<close>

fun remove_NS :: "string \<Rightarrow> string" where
  "remove_NS (a # b # c # rest) =
     (if [a, b, c] = ''.NS'' then remove_NS rest else a # remove_NS (b # c # rest))"
| "remove_NS s = s"

definition ticker_short :: "analyzer \<Rightarrow> string" where
  "ticker_short st = remove_NS (ticker st)"

text \<open>
  The news provider is a function from the position of a query in the ladder and the query
  text to the outcome of that request; \<open>ladder_results\<close> lists the outcome of each of
  the five requests, in order, as the loop would receive them were it to issue them all.
\<close>

definition ladder_results :: "(nat \<Rightarrow> string \<Rightarrow> query_result) \<Rightarrow> string \<Rightarrow> string \<Rightarrow> query_result list" where
  "ladder_results news_api company_name tshort =
     map (\<lambda>(i, q). news_api i q) (enumerate 0 (search_queries company_name tshort))"

text \<open>
  \<^verbatim>\<open>fetch_news\<close> (lines 62 to 126). The company name comes from the external lookup
  \<^verbatim>\<open>get_company_name\<close> and is a parameter. The result is the returned boolean and the
  new instance state; on \<open>False\<close> the state is left as it was.
\<close>

definition fetch_news ::
  "(nat \<Rightarrow> string \<Rightarrow> query_result) \<Rightarrow> string \<Rightarrow> analyzer \<Rightarrow> bool \<times> analyzer" where
  "fetch_news news_api company_name st =
     (let all_articles =
            fst (fetch_loop (ladder_results news_api company_name (ticker_short st)) ([], {}))
      in if length all_articles \<ge> 20 then (True, st\<lparr>news_articles := take 20 all_articles\<rparr>)
         else if length all_articles > 0 then (True, st\<lparr>news_articles := all_articles\<rparr>)
         else (False, st))"

section \<open>Sentiment scoring\<close>

text \<open>
  The sentiment scorer (\<^verbatim>\<open>TextBlob(text).sentiment.polarity\<close>) is external: a parameter
  \<open>scorer\<close> from the text to its polarity. Polarities and percentages are
  floating-point numbers in the program; here they are exact rationals, and so are the
  thresholds \<open>0.1\<close> and \<open>-0.1\<close>. The arithmetic on prices is rounded as the
  program's double-precision arithmetic rounds it (see \<open>float64\<close> below).
\<close>

text \<open>The text \<^verbatim>\<open>generate_summary\<close> scores (lines 142 to 144).\<close>

definition article_text :: "article \<Rightarrow> string" where
  "article_text a = dict_get (title a) [] @ ''. '' @ dict_get (description a) []"

text \<open>
  The counting loop of \<^verbatim>\<open>generate_summary\<close> (lines 141 to 156); the state is
  \<open>(positive_count, negative_count, neutral_count)\<close>.
\<close>

fun count_sentiment :: "(string \<Rightarrow> rat) \<Rightarrow> article list \<Rightarrow> nat \<times> nat \<times> nat \<Rightarrow> nat \<times> nat \<times> nat" where
  "count_sentiment scorer [] counts = counts"
| "count_sentiment scorer (a # rest) (positive_count, negative_count, neutral_count) =
     (let sentiment = scorer (article_text a) in
      if sentiment > 1 / 10 then
        count_sentiment scorer rest (positive_count + 1, negative_count, neutral_count)
      else if sentiment < - (1 / 10) then
        count_sentiment scorer rest (positive_count, negative_count + 1, neutral_count)
      else count_sentiment scorer rest (positive_count, negative_count, neutral_count + 1))"

text \<open>
  The per-article label of the article list in \<^verbatim>\<open>main\<close> (lines 326 to 337): the text
  scored there joins title and description with a single space.
\<close>

datatype sentiment_label = Positive | Negative | Neutral

definition display_text :: "article \<Rightarrow> string" where
  "display_text a = dict_get (title a) [] @ '' '' @ dict_get (description a) []"

definition display_label :: "(string \<Rightarrow> rat) \<Rightarrow> article \<Rightarrow> sentiment_label" where
  "display_label scorer a =
     (let sentiment = scorer (display_text a) in
      if sentiment > 1 / 10 then Positive
      else if sentiment < - (1 / 10) then Negative
      else Neutral)"

section \<open>The summary\<close>

datatype py_error = ZeroDivisionError | TypeError

text \<open>
  Formatting with \<^verbatim>\<open>:.1f\<close> and \<^verbatim>\<open>:.2f\<close> rounds the value to the given number of
  decimals, ties to the even digit. The model keeps the rounded value as a rational.
\<close>

definition round_half_even :: "rat \<Rightarrow> int" where
  "round_half_even x =
     (let f = \<lfloor>x\<rfloor>; r = x - of_int f in
      if r < 1 / 2 then f
      else if r > 1 / 2 then f + 1
      else if even f then f else f + 1)"

definition format_f :: "nat \<Rightarrow> rat \<Rightarrow> rat" where
  "format_f decimals x = of_int (round_half_even (x * 10 ^ decimals)) / 10 ^ decimals"

text \<open>
  \<^verbatim>\<open>count/total_articles*100\<close> on Python integers (lines 179 to 181): true division,
  which raises on a zero divisor.
\<close>

definition percent :: "nat \<Rightarrow> nat \<Rightarrow> py_error + rat" where
  "percent count total_articles =
     (if total_articles = 0 then Inl ZeroDivisionError
      else Inr (of_nat count / of_nat total_articles * 100))"

text \<open>The two three-way choices on the counts (lines 163 to 171 and 225 to 230).\<close>

datatype overall = Predominantly_Positive | Predominantly_Negative | Mixed

datatype closing = Strongly_Positive | Concerning | Balanced

definition overall_sentiment :: "nat \<Rightarrow> nat \<Rightarrow> overall" where
  "overall_sentiment positive_count negative_count =
     (if positive_count > negative_count then Predominantly_Positive
      else if negative_count > positive_count then Predominantly_Negative
      else Mixed)"

definition conclusion :: "nat \<Rightarrow> nat \<Rightarrow> closing" where
  "conclusion positive_count negative_count =
     (if (of_nat positive_count :: rat) > of_nat negative_count * (3 / 2) then Strongly_Positive
      else if (of_nat negative_count :: rat) > of_nat positive_count * (3 / 2) then Concerning
      else Balanced)"

subsection \<open>Topics\<close>

text \<open>
  \<^verbatim>\<open>str.lower()\<close>. On a string of ASCII characters it maps the letters A to Z to a to
  z and leaves every other character. On a string that holds a character outside ASCII it
  is Python's lower-casing of Unicode text, which is built into the language and not part
  of the program: the parameter \<open>unicode_lower\<close>, a function on whole strings.
\<close>

definition lower_char :: "char \<Rightarrow> char" where
  "lower_char c =
     (if 65 \<le> (of_char c :: nat) \<and> (of_char c :: nat) \<le> 90
      then char_of (of_char c + 32 :: nat) else c)"

definition is_ascii :: "string \<Rightarrow> bool" where
  "is_ascii s = list_all (\<lambda>c. (of_char c :: nat) < 128) s"

definition lower :: "(string \<Rightarrow> string) \<Rightarrow> string \<Rightarrow> string" where
  "lower unicode_lower s = (if is_ascii s then map lower_char s else unicode_lower s)"

text \<open>The topic table \<^verbatim>\<open>keywords\<close> of lines 187 to 195, in insertion order.\<close>

definition keywords_table :: "(string \<times> string list) list" where
  "keywords_table =
     [(''earnings'', [''earnings'', ''profit'', ''revenue'', ''quarter'', ''results'']),
      (''growth'', [''growth'', ''expansion'', ''increase'', ''rise'', ''surge'']),
      (''challenges'', [''fall'', ''drop'', ''decline'', ''loss'', ''challenge'']),
      (''innovation'', [''launch'', ''innovation'', ''technology'', ''digital'', ''AI'']),
      (''market'', [''market'', ''stock'', ''share'', ''investor'', ''trading'']),
      (''regulatory'', [''regulatory'', ''compliance'', ''government'', ''policy'']),
      (''partnership'', [''partnership'', ''deal'', ''agreement'', ''collaboration''])]"

text \<open>
  The condition of the generator at lines 199 to 201: some keyword of the list is a substring
  (Python's \<^verbatim>\<open>in\<close>) of the lower-cased title or of the lower-cased description.
\<close>

definition mentions :: "(string \<Rightarrow> string) \<Rightarrow> string list \<Rightarrow> article \<Rightarrow> bool" where
  "mentions unicode_lower keywords_list a =
     list_ex (\<lambda>keyword.
        sublist (lower unicode_lower keyword) (lower unicode_lower (dict_get (title a) [])) \<or>
        sublist (lower unicode_lower keyword) (lower unicode_lower (dict_get (description a) [])))
       keywords_list"

text \<open>\<^verbatim>\<open>sum(1 for article in self.news_articles if any(...))\<close>.\<close>

definition topic_count :: "(string \<Rightarrow> string) \<Rightarrow> string list \<Rightarrow> article list \<Rightarrow> nat" where
  "topic_count unicode_lower keywords_list arts =
     sum_list (map (\<lambda>a. 1) (filter (mentions unicode_lower keywords_list) arts))"

text \<open>
  A line under the topics heading: the mention count of a topic (rendered with the topic's
  name in title case), or the fallback line. The loop of lines 197 to 203 appends a line
  for each topic whose count is positive.
\<close>

datatype topic_line = Mentions string nat | General_updates

fun topics_mentioned ::
  "(string \<Rightarrow> string) \<Rightarrow> (string \<times> string list) list \<Rightarrow> article list \<Rightarrow> topic_line list" where
  "topics_mentioned unicode_lower [] arts = []"
| "topics_mentioned unicode_lower ((topic, keywords_list) # rest) arts =
     (let count = topic_count unicode_lower keywords_list arts in
      if count > 0 then Mentions topic count # topics_mentioned unicode_lower rest arts
      else topics_mentioned unicode_lower rest arts)"

definition topic_lines :: "(string \<Rightarrow> string) \<Rightarrow> article list \<Rightarrow> topic_line list" where
  "topic_lines unicode_lower arts =
     (let lines = topics_mentioned unicode_lower keywords_table arts in
      if lines \<noteq> [] then lines else [General_updates])"

subsection \<open>Highlights and market context\<close>

text \<open>Lines 210 to 213: number, date prefix and title of the first five articles.\<close>

definition highlights :: "article list \<Rightarrow> (nat \<times> string \<times> string) list" where
  "highlights arts =
     map (\<lambda>(i, a). (i, take 10 (dict_get (publishedAt a) []), dict_get (title a) ''No title''))
       (enumerate 1 (take 5 arts))"

text \<open>
  Closing prices are double-precision numbers of the price table. Every operation on them
  gives the double nearest to the exact result, ties to the even mantissa: \<open>float64\<close>
  rounds a rational to 53 significant bits, where \<open>exponent x\<close> is the integer \<open>e\<close>
  with \<open>2\<^sup>e \<le> \<bar>x\<bar> < 2\<^sup>e\<^sup>+\<^sup>1\<close>. The range of the exponent is not bounded (no overflow
  and no underflow). \<open>unit_roundoff\<close> is the bound of the relative error of one rounding.
\<close>

definition exponent :: "rat \<Rightarrow> int" where
  "exponent x =
     (case quotient_of \<bar>x\<bar> of
        (a, b) \<Rightarrow> let e = bitlen a - bitlen b in if 2 powi e \<le> \<bar>x\<bar> then e else e - 1)"

definition float64 :: "rat \<Rightarrow> rat" where
  "float64 x =
     (if x = 0 then 0
      else let ulp = 2 powi (exponent x - 52) in of_int (round_half_even (x / ulp)) * ulp)"

definition unit_roundoff :: rat where
  "unit_roundoff = 1 / 2 ^ 53"

text \<open>
  A division by zero in the price table raises nothing and gives an infinity or
  not-a-number.
\<close>

datatype fval = Fin rat | PosInf | NegInf | NaN

definition np_div :: "rat \<Rightarrow> rat \<Rightarrow> fval" where
  "np_div x y =
     (if y \<noteq> 0 then Fin (float64 (x / y))
      else if x > 0 then PosInf else if x < 0 then NegInf else NaN)"

fun times100 :: "fval \<Rightarrow> fval" where
  "times100 (Fin q) = Fin (float64 (q * 100))"
| "times100 v = v"

fun format_fval :: "nat \<Rightarrow> fval \<Rightarrow> fval" where
  "format_fval decimals (Fin q) = Fin (format_f decimals q)"
| "format_fval decimals v = v"

text \<open>Lines 217 to 219, for a series of at least two closes.\<close>

definition price_change :: "rat list \<Rightarrow> fval" where
  "price_change closes =
     (let current_price = float64 (closes ! (length closes - 1));
          prev_price = float64 (closes ! (length closes - 2))
      in times100 (np_div (float64 (current_price - prev_price)) prev_price))"

text \<open>
  Lines 216 to 222: the two lines under the market heading, as the displayed current price
  and the displayed change, or nothing. \<^verbatim>\<open>len\<close> of the initial \<^verbatim>\<open>None\<close> raises.
  The displayed numbers are the doubles rounded to two decimals by \<^verbatim>\<open>:.2f\<close>.
\<close>

definition market_context :: "rat list option \<Rightarrow> py_error + (rat \<times> fval) option" where
  "market_context data =
     (case data of
        None \<Rightarrow> Inl TypeError
      | Some closes \<Rightarrow>
          if length closes > 1
          then Inr (Some (format_f 2 (float64 (closes ! (length closes - 1))),
                          format_fval 2 (price_change closes)))
          else Inr None)"

subsection \<open>\<^verbatim>\<open>generate_summary\<close>\<close>

text \<open>
  The summary is kept as its parts, in the order of the lines of the returned text, rather
  than as the rendered text.
\<close>

record summary =
  company :: string
  symbol :: string
  total_articles :: nat
  overall_line :: overall
  positive_count :: nat
  positive_pct :: rat
  negative_count :: nat
  negative_pct :: rat
  neutral_count :: nat
  neutral_pct :: rat
  topics :: "topic_line list"
  key_highlights :: "(nat \<times> string \<times> string) list"
  market :: "(rat \<times> fval) option"
  closing_statement :: closing

datatype summary_result = No_articles | Summary summary

definition generate_summary ::
  "(string \<Rightarrow> string) \<Rightarrow> (string \<Rightarrow> rat) \<Rightarrow> string \<Rightarrow> analyzer \<Rightarrow> py_error + summary_result" where
  "generate_summary unicode_lower scorer company_name st =
     (if news_articles st = [] then Inr No_articles
      else
        (case count_sentiment scorer (news_articles st) (0, 0, 0) of
           (pos, neg, neu) \<Rightarrow>
             let total = length (news_articles st) in
             (case percent pos total of
                Inl e \<Rightarrow> Inl e
              | Inr pos_pct \<Rightarrow>
                 (case percent neg total of
                    Inl e \<Rightarrow> Inl e
                  | Inr neg_pct \<Rightarrow>
                     (case percent neu total of
                        Inl e \<Rightarrow> Inl e
                      | Inr neu_pct \<Rightarrow>
                         (case market_context (stock_data st) of
                            Inl e \<Rightarrow> Inl e
                          | Inr context \<Rightarrow>
                              Inr (Summary
                                \<lparr>company = company_name,
                                 symbol = ticker st,
                                 total_articles = total,
                                 overall_line = overall_sentiment pos neg,
                                 positive_count = pos,
                                 positive_pct = format_f 1 pos_pct,
                                 negative_count = neg,
                                 negative_pct = format_f 1 neg_pct,
                                 neutral_count = neu,
                                 neutral_pct = format_f 1 neu_pct,
                                 topics = topic_lines unicode_lower (news_articles st),
                                 key_highlights = highlights (news_articles st),
                                 market = context,
                                 closing_statement = conclusion pos neg\<rparr>)))))))"

section \<open>The analysis run of \<^verbatim>\<open>main\<close>\<close>

text \<open>
  Lines 258 to 346, for one press of the button: a fresh analyzer, the price history, the
  news, and then either the early return, or the summary together with the label shown for
  each article. An exception of \<^verbatim>\<open>generate_summary\<close> is caught at the top level and
  shown as an error in place of the report.
\<close>

datatype report =
  Cannot_proceed
| Error_shown py_error
| Report summary_result "sentiment_label list"

definition main_analysis ::
  "(nat \<Rightarrow> string \<Rightarrow> query_result) \<Rightarrow> rat list \<Rightarrow> (string \<Rightarrow> string) \<Rightarrow> (string \<Rightarrow> rat) \<Rightarrow>
     string \<Rightarrow> string \<Rightarrow> string \<Rightarrow> report" where
  "main_analysis news_api history unicode_lower scorer company_name t key =
     (let analyzer = fetch_stock_data history (init t key);
          (news_fetched, analyzer') = fetch_news news_api company_name analyzer
      in if \<not> news_fetched then Cannot_proceed
         else
           (case generate_summary unicode_lower scorer company_name analyzer' of
              Inl e \<Rightarrow> Error_shown e
            | Inr summary \<Rightarrow>
                Report summary (map (display_label scorer) (news_articles analyzer'))))"

section \<open>Notions used to state the properties\<close>

text \<open>The url an article is keyed by, with the default of \<^verbatim>\<open>article.get('url', '')\<close>.\<close>

definition url_of :: "article \<Rightarrow> string" where
  "url_of a = dict_get (url a) []"

definition has_url :: "article \<Rightarrow> bool" where
  "has_url a = (url_of a \<noteq> [])"

text \<open>
  A query fails outright when its request raises or its response's status is not
  \<^verbatim>\<open>"ok"\<close>: it fails before any of its articles is read. The batch of a query is the
  list of the articles read from its response: all of them for an \<^verbatim>\<open>"ok"\<close> response,
  those before the exception when reading the list raises, none for a query that fails
  outright.
\<close>

definition fails_outright :: "query_result \<Rightarrow> bool" where
  "fails_outright r =
     (case r of
        Raises \<Rightarrow> True
      | Response status arts \<Rightarrow> status \<noteq> Some ''ok''
      | Raises_in_batch arts \<Rightarrow> False)"

definition batch_of :: "query_result \<Rightarrow> article list" where
  "batch_of r =
     (case r of
        Raises \<Rightarrow> []
      | Response status arts \<Rightarrow> if status = Some ''ok'' then dict_get arts [] else []
      | Raises_in_batch arts \<Rightarrow> arts)"



text \<open>
  The first occurrence of each url: the article at position \<open>i\<close> is kept exactly when no
  earlier article of the list has its url.
\<close>

definition first_by_url :: "article list \<Rightarrow> article list" where
  "first_by_url xs =
     map (\<lambda>i. xs ! i) (filter (\<lambda>i. url_of (xs ! i) \<notin> url_of ` set (take i xs)) [0..<length xs])"

text \<open>
  The aggregate in the words of the specification: the batches concatenated, filtered to
  the first occurrence of each url, truncated at the cap of 20.
\<close>

definition spec_aggregate :: "article list list \<Rightarrow> article list" where
  "spec_aggregate batches = take 20 (first_by_url (concat batches))"

text \<open>The same scan written as a recursion over the list with the set of urls seen so far.\<close>

fun dedup :: "string set \<Rightarrow> article list \<Rightarrow> article list" where
  "dedup seen [] = []"
| "dedup seen (a # rest) =
     (if url_of a \<in> seen then dedup seen rest else a # dedup (insert (url_of a) seen) rest)"

section \<open>Example inputs\<close>

text \<open>Concrete articles, providers and a scorer on which the results below are run.\<close>

definition example_article :: "string \<Rightarrow> string \<Rightarrow> string \<Rightarrow> article" where
  "example_article t d u =
     \<lparr>title = Some t, description = Some d, url = Some u,
      publishedAt = Some ''2024-05-01T09:30:00Z'', source_name = Some ''Wire''\<rparr>"

text \<open>Every query answers \<^verbatim>\<open>"ok"\<close> with one article whose url is the empty string.\<close>

definition provider_no_url :: "nat \<Rightarrow> string \<Rightarrow> query_result" where
  "provider_no_url i q = Response (Some ''ok'') (Some [example_article ''Results'' ''Out now'' []])"

text \<open>
  The first query raises, the second answers with an error status, the third answers
  \<^verbatim>\<open>"ok"\<close> with two articles of which one has no url key, the last two answer
  \<^verbatim>\<open>"ok"\<close> with an article already seen.
\<close>

definition provider_flaky :: "nat \<Rightarrow> string \<Rightarrow> query_result" where
  "provider_flaky i q =
     (if i = 0 then Raises
      else if i = 1 then Response (Some ''error'') None
      else if i = 2 then
        Response (Some ''ok'')
          (Some [(example_article ''Draft'' ''No link'' [])\<lparr>url := None\<rparr>,
                 example_article ''Up on results'' ''Profit rose'' ''https://a.example/1''])
      else Response (Some ''ok'')
             (Some [example_article ''Up on results (again)'' ''Profit rose'' ''https://a.example/1'']))"

text \<open>
  Articles with pairwise different urls. The first query answers with the articles 0 to 11,
  every later query with the articles 6 to 29.
\<close>

definition numbered_article :: "nat \<Rightarrow> article" where
  "numbered_article i =
     example_article ''Story'' ''Text'' (''https://a.example/'' @ replicate (Suc i) CHR ''x'')"

definition provider_many :: "nat \<Rightarrow> string \<Rightarrow> query_result" where
  "provider_many i q =
     (if i = 0 then Response (Some ''ok'') (Some (map numbered_article [0..<12]))
      else Response (Some ''ok'') (Some (map numbered_article [6..<30])))"

text \<open>
  Every query answers \<^verbatim>\<open>"ok"\<close> with a list that holds one article and then an
  element whose reading raises.
\<close>

definition provider_breaks :: "nat \<Rightarrow> string \<Rightarrow> query_result" where
  "provider_breaks i q =
     Raises_in_batch [example_article ''Up on results'' ''Profit rose'' ''https://a.example/1'']"

text \<open>Every request raises.\<close>

definition provider_down :: "nat \<Rightarrow> string \<Rightarrow> query_result" where
  "provider_down i q = Raises"

text \<open>
  A stand-in for Python's lower-casing of text with a character outside ASCII. The
  examples hold ASCII text only, on which it is never called.
\<close>

definition example_lower :: "string \<Rightarrow> string" where
  "example_lower s = s"

text \<open>A scorer that reads the first word of the text.\<close>

definition example_scorer :: "string \<Rightarrow> rat" where
  "example_scorer text =
     (if prefix ''Up'' text then 1 / 2 else if prefix ''Down'' text then - (1 / 2) else 0)"

text \<open>
  A scorer that tells the text of the summary from the text of the article list for an
  article titled \<open>Not\<close> and described as \<open>good\<close>.
\<close>

definition punctuation_scorer :: "string \<Rightarrow> rat" where
  "punctuation_scorer text =
     (if text = ''Not. good'' then 7 / 10 else if text = ''Not good'' then - (7 / 20) else 0)"

text \<open>Every query answers \<^verbatim>\<open>"ok"\<close> with that one article.\<close>

definition provider_not_good :: "nat \<Rightarrow> string \<Rightarrow> query_result" where
  "provider_not_good i q =
     Response (Some ''ok'') (Some [example_article ''Not'' ''good'' ''https://a.example/n''])"

definition up_article :: article where
  "up_article = example_article ''Up on earnings'' ''Profit'' ''https://a.example/up''"

definition down_article :: article where
  "down_article = example_article ''Down on loss'' ''Drop'' ''https://a.example/down''"

definition flat_article :: article where
  "flat_article = example_article ''Board meets'' ''Agenda'' ''https://a.example/flat''"

text \<open>An analyzer that holds the given articles and no price history yet.\<close>

definition example_state :: "article list \<Rightarrow> analyzer" where
  "example_state arts = (init ''ACME.NS'' ''key'')\<lparr>news_articles := arts\<rparr>"

section \<open>The fetch loop computes the capped first-seen scan\<close>

lemma first_by_url_gen:
  "map (\<lambda>i. xs ! i)
     (filter (\<lambda>i. url_of (xs ! i) \<notin> S \<union> url_of ` set (take i xs)) [0..<length xs])
   = dedup S xs"
proof (induction xs arbitrary: S)
  case Nil
  then show ?case by simp
next
  case (Cons a xs)
  have "[0..<length (a # xs)] = 0 # map Suc [0..<length xs]"
    by (simp add: upt_conv_Cons map_Suc_upt del: upt_Suc)
  then show ?case using Cons[of "insert (url_of a) S"] Cons[of S]
    by (auto simp add: comp_def filter_map conj_ac insert_absorb simp del: upt_Suc)
qed

lemma first_by_url_dedup: "first_by_url xs = dedup {} xs"
  using first_by_url_gen[of xs "{}"] by (simp add: first_by_url_def)

lemma dedup_append: "dedup S (xs @ ys) = dedup S xs @ dedup (S \<union> url_of ` set xs) ys"
  by (induction xs arbitrary: S) (auto simp: insert_absorb)

lemma dedup_urls_diff: "url_of ` set (dedup S xs) = url_of ` set xs - S"
  by (induction xs arbitrary: S) auto

lemma dedup_urls: "S \<union> url_of ` set (dedup S xs) = S \<union> url_of ` set xs"
  by (auto simp: dedup_urls_diff)

lemma dedup_distinct: "distinct (map url_of (dedup S xs))"
  by (induction xs arbitrary: S) (auto simp: dedup_urls_diff)

lemma dedup_subset: "set (dedup S xs) \<subseteq> set xs"
  by (induction xs arbitrary: S) auto

lemma admit_batch_eq:
  "length acc < 20 \<Longrightarrow>
   admit_batch xs (acc, url_of ` set acc) =
     (let r = take 20 (acc @ dedup (url_of ` set acc) (filter has_url xs))
      in (r, url_of ` set r))"
proof (induction xs arbitrary: acc)
  case Nil
  then show ?case by simp
next
  case (Cons a xs)
  show ?case
  proof (cases "url_of a \<noteq> [] \<and> url_of a \<notin> url_of ` set acc")
    case True
    show ?thesis
    proof (cases "length acc = 19")
      case l: True
      with True show ?thesis by (simp add: url_of_def[symmetric] has_url_def Let_def)
    next
      case False
      with Cons.prems have "length (acc @ [a]) < 20" by simp
      from Cons.IH[OF this] True False Cons.prems show ?thesis
        by (simp add: url_of_def[symmetric] has_url_def Let_def)
    qed
  next
    case False
    with Cons.IH[OF Cons.prems] Cons.prems show ?thesis
      by (auto simp add: url_of_def[symmetric] has_url_def Let_def)
  qed
qed

lemma process_query_eq:
  "length acc < 20 \<Longrightarrow>
   process_query r (acc, url_of ` set acc) =
     (let x = take 20 (acc @ dedup (url_of ` set acc) (filter has_url (batch_of r)))
      in (x, url_of ` set x))"
  by (cases r) (simp_all add: batch_of_def admit_batch_eq Let_def)

lemma fetch_loop_full: "length (fst s) \<ge> 20 \<Longrightarrow> fetch_loop rs s = s"
  by (cases rs) simp_all

lemma fetch_loop_eq:
  "length acc \<le> 20 \<Longrightarrow>
   fetch_loop rs (acc, url_of ` set acc) =
     (let x = take 20 (acc @ dedup (url_of ` set acc) (filter has_url (concat (map batch_of rs))))
      in (x, url_of ` set x))"
proof (induction rs arbitrary: acc)
  case Nil
  then show ?case by simp
next
  case (Cons r rs)
  let ?U = "url_of ` set acc"
  let ?d1 = "dedup ?U (filter has_url (batch_of r))"
  let ?x1 = "take 20 (acc @ ?d1)"
  show ?case
  proof (cases "length acc = 20")
    case True
    then show ?thesis by (simp add: Let_def)
  next
    case False
    with Cons.prems have lt: "length acc < 20" by simp
    have pq: "process_query r (acc, ?U) = (?x1, url_of ` set ?x1)"
      using process_query_eq[OF lt, of r] by (simp add: Let_def)
    show ?thesis
    proof (cases "length (acc @ ?d1) \<ge> 20")
      case True
      then have full: "length ?x1 \<ge> 20" by simp
      have "fetch_loop rs (?x1, url_of ` set ?x1) = (?x1, url_of ` set ?x1)"
        using full by (simp add: fetch_loop_full)
      moreover have "take 20 (acc @ dedup ?U (filter has_url (concat (map batch_of (r # rs))))) = ?x1"
        using True by (simp add: dedup_append)
      ultimately show ?thesis using lt pq by (simp add: Let_def del: take_append)
    next
      case False
      then have x1: "?x1 = acc @ ?d1" by simp
      have U1: "url_of ` set (acc @ ?d1) = ?U \<union> url_of ` set (filter has_url (batch_of r))"
        using dedup_urls[of ?U "filter has_url (batch_of r)"] by (simp add: image_Un)
      have le: "length (acc @ ?d1) \<le> 20" using False by simp
      have "fetch_loop rs (acc @ ?d1, url_of ` set (acc @ ?d1)) =
            (let x = take 20 ((acc @ ?d1) @ dedup (url_of ` set (acc @ ?d1))
                        (filter has_url (concat (map batch_of rs))))
             in (x, url_of ` set x))"
        by (rule Cons.IH[OF le])
      then show ?thesis using lt pq x1 U1
        by (simp add: Let_def dedup_append del: take_append)
    qed
  qed
qed

lemma fetch_loop_start:
  "fetch_loop rs ([], {}) =
     (take 20 (first_by_url (filter has_url (concat (map batch_of rs)))),
      url_of ` set (take 20 (first_by_url (filter has_url (concat (map batch_of rs))))))"
  using fetch_loop_eq[of "[]" rs] by (simp add: Let_def first_by_url_dedup)

lemma fetch_news_eq:
  "fetch_news api cn st =
     (let xs = take 20 (first_by_url (filter has_url
                 (concat (map batch_of (ladder_results api cn (ticker_short st))))))
      in if xs = [] then (False, st) else (True, st\<lparr>news_articles := xs\<rparr>))"
  by (auto simp add: fetch_news_def fetch_loop_start Let_def)

lemma has_url_iff: "has_url a \<longleftrightarrow> (\<exists>u. url a = Some u \<and> u \<noteq> [])"
  by (cases "url a") (simp_all add: has_url_def url_of_def dict_get_def)

lemma failed_process: "fails_outright r \<Longrightarrow> process_query r s = s"
  by (cases r) (simp_all add: fails_outright_def)

lemma failed_skip: "fails_outright r \<Longrightarrow> fetch_loop (r # rs) s = fetch_loop rs s"
  by (simp add: failed_process fetch_loop_full)

lemma raises_in_batch_as_ok:
  "process_query (Raises_in_batch arts) s = process_query (Response (Some ''ok'') (Some arts)) s"
  "fetch_loop (Raises_in_batch arts # rs) s = fetch_loop (Response (Some ''ok'') (Some arts) # rs) s"
  by (simp_all add: dict_get_def)

lemma fetch_loop_filter_failed:
  "fetch_loop rs s = fetch_loop (filter (\<lambda>r. \<not> fails_outright r) rs) s"
proof (induction rs arbitrary: s)
  case Nil
  then show ?case by simp
next
  case (Cons r rs)
  show ?case
  proof (cases "fails_outright r")
    case True
    then show ?thesis using Cons[of s] by (simp add: failed_skip del: fetch_loop.simps)
  next
    case False
    then show ?thesis using Cons[of "process_query r s"] by simp
  qed
qed

lemma dedup_Nil_iff: "dedup {} xs = [] \<longleftrightarrow> xs = []"
  by (cases xs) simp_all

lemma length_ladder: "length (ladder_results api cn ts) = 5"
  by (simp add: ladder_results_def search_queries_def)

lemma fetch_news_True_iff:
  "fst (fetch_news api cn st) \<longleftrightarrow>
     (\<exists>r \<in> set (ladder_results api cn (ticker_short st)). \<exists>a \<in> set (batch_of r). has_url a)"
proof -
  let ?rs = "ladder_results api cn (ticker_short st)"
  have "fst (fetch_news api cn st) \<longleftrightarrow> filter has_url (concat (map batch_of ?rs)) \<noteq> []"
    by (simp add: fetch_news_eq Let_def first_by_url_dedup dedup_Nil_iff)
  also have "\<dots> \<longleftrightarrow> (\<exists>r \<in> set ?rs. \<exists>a \<in> set (batch_of r). has_url a)"
    by (auto simp: filter_empty_conv)
  finally show ?thesis .
qed

lemma admit_no_url: "\<not> has_url a \<Longrightarrow> admit_batch (a # rest) s = admit_batch rest s"
  by (cases s) (simp add: has_url_def url_of_def)

lemma fetch_loop_all_have_url:
  assumes "a \<in> set (fst (fetch_loop rs ([], {})))"
  shows "has_url a"
proof -
  let ?xs = "filter has_url (concat (map batch_of rs))"
  have "fst (fetch_loop rs ([], {})) = take 20 (dedup {} ?xs)"
    by (simp add: fetch_loop_start first_by_url_dedup)
  with assms have "a \<in> set (take 20 (dedup {} ?xs))" by simp
  then have "a \<in> set (dedup {} ?xs)" by (rule in_set_takeD)
  then have "a \<in> set ?xs" using dedup_subset by blast
  then show ?thesis by simp
qed

lemma fetch_loop_seen: "[] \<notin> snd (fetch_loop rs ([], {}))"
proof
  assume "[] \<in> snd (fetch_loop rs ([], {}))"
  then have "[] \<in> url_of ` set (fst (fetch_loop rs ([], {})))"
    by (simp add: fetch_loop_start)
  then obtain a where "a \<in> set (fst (fetch_loop rs ([], {})))" and "url_of a = []"
    by force
  then show False using fetch_loop_all_have_url[of a rs] by (simp add: has_url_def)
qed

section \<open>Counting, rounding and the parts of the summary\<close>

lemma count_sentiment_eq:
  "count_sentiment scorer arts (p, n, u) =
     (p + length (filter (\<lambda>a. scorer (article_text a) > 1 / 10) arts),
      n + length (filter (\<lambda>a. \<not> scorer (article_text a) > 1 / 10 \<and> scorer (article_text a) < - (1 / 10)) arts),
      u + length (filter (\<lambda>a. \<not> scorer (article_text a) > 1 / 10 \<and> \<not> scorer (article_text a) < - (1 / 10)) arts))"
  by (induction arts arbitrary: p n u) (simp_all add: Let_def)

lemma count_sentiment_total:
  "count_sentiment scorer arts (p, n, u) = (p', n', u') \<Longrightarrow> p' + n' + u' = p + n + u + length arts"
  by (induction arts arbitrary: p n u) (simp_all add: Let_def split: if_splits)

lemma round_half_even_bound: "\<bar>of_int (round_half_even x) - x\<bar> \<le> 1 / 2"
proof -
  have "of_int \<lfloor>x\<rfloor> \<le> x" and "x < of_int \<lfloor>x\<rfloor> + 1" by linarith+
  then show ?thesis by (auto simp: round_half_even_def Let_def)
qed

lemma format_f1_bound: "\<bar>format_f 1 x - x\<bar> \<le> 1 / 20"
proof -
  have "\<bar>of_int (round_half_even (x * 10)) - x * 10\<bar> \<le> 1 / 2"
    by (rule round_half_even_bound)
  then show ?thesis by (simp add: format_f_def field_simps abs_le_iff)
qed

lemma three_rounded_sum:
  fixes a b c :: rat
  assumes "a + b + c = 100"
  shows "\<bar>format_f 1 a + format_f 1 b + format_f 1 c - 100\<bar> \<le> 1 / 10"
proof -
  let ?i = "round_half_even (a * 10) + round_half_even (b * 10) + round_half_even (c * 10)"
  have s: "format_f 1 a + format_f 1 b + format_f 1 c = of_int ?i / 10"
    by (simp add: format_f_def add_divide_distrib)
  have "\<bar>format_f 1 a - a\<bar> \<le> 1 / 20" "\<bar>format_f 1 b - b\<bar> \<le> 1 / 20" "\<bar>format_f 1 c - c\<bar> \<le> 1 / 20"
    by (rule format_f1_bound)+
  then have "\<bar>format_f 1 a + format_f 1 b + format_f 1 c - 100\<bar> \<le> 3 / 20"
    using assms by linarith
  then have "\<bar>(of_int ?i :: rat) - 1000\<bar> \<le> 3 / 2"
    unfolding s by (simp add: field_simps abs_le_iff)
  then have "\<bar>(of_int (?i - 1000) :: rat)\<bar> < of_int 2" by simp
  then have "\<bar>?i - 1000\<bar> < 2" unfolding of_int_abs[symmetric] of_int_less_iff .
  then have "\<bar>?i - 1000\<bar> \<le> 1" by linarith
  then have "\<bar>(of_int (?i - 1000) :: rat)\<bar> \<le> of_int 1"
    unfolding of_int_abs[symmetric] of_int_le_iff .
  then show ?thesis unfolding s by (simp add: field_simps abs_le_iff)
qed

lemma percent_sum:
  assumes "t > 0" "p + n + u = t"
  shows "(of_nat p / of_nat t * 100 + of_nat n / of_nat t * 100 + of_nat u / of_nat t * 100 :: rat) = 100"
proof -
  have "(of_nat p + of_nat n + of_nat u :: rat) = of_nat t"
    using assms(2) by (metis of_nat_add)
  moreover have "(of_nat t :: rat) \<noteq> 0" using assms(1) by simp
  ultimately show ?thesis by (simp add: field_simps)
qed

text \<open>One rounding to a double, and the three roundings of the price change.\<close>

lemma exponent_le:
  assumes "x \<noteq> 0"
  shows "2 powi (exponent x) \<le> \<bar>x\<bar>"
proof -
  obtain a b where q: "quotient_of \<bar>x\<bar> = (a, b)" by (cases "quotient_of \<bar>x\<bar>")
  have b: "b > 0" using q by (rule quotient_of_denom_pos)
  have x: "\<bar>x\<bar> = of_int a / of_int b" using q by (rule quotient_of_div)
  have "\<bar>x\<bar> > 0" using assms by simp
  then have a: "a > 0" using b unfolding x by (simp add: zero_less_divide_iff)
  let ?e = "bitlen a - bitlen b"
  show ?thesis
  proof (cases "2 powi ?e \<le> \<bar>x\<bar>")
    case True
    then show ?thesis by (simp add: exponent_def q Let_def)
  next
    case False
    have la: "(2::int) ^ nat (bitlen a - 1) \<le> a" using bitlen_bounds[OF a] by simp
    have lb: "b < (2::int) ^ nat (bitlen b)" using bitlen_bounds[OF b] by simp
    have ba: "bitlen a \<ge> 1" using a by (auto simp: bitlen_alt_def)
    have bb: "bitlen b \<ge> 1" using b by (auto simp: bitlen_alt_def)
    have 1: "(2::rat) powi (bitlen a - 1) \<le> of_int a"
    proof -
      have "(2::rat) powi (bitlen a - 1) = of_int (2 ^ nat (bitlen a - 1))"
        using ba by (simp add: power_int_def)
      also have "\<dots> \<le> of_int a" using la by (simp only: of_int_le_iff)
      finally show ?thesis .
    qed
    have 2: "of_int b \<le> (2::rat) powi (bitlen b)"
    proof -
      have "(of_int b :: rat) \<le> of_int (2 ^ nat (bitlen b))"
        using lb by (simp only: of_int_le_iff)
      also have "\<dots> = (2::rat) powi (bitlen b)"
        using bb by (simp add: power_int_def)
      finally show ?thesis .
    qed
    have "?e - 1 = (bitlen a - 1) - bitlen b" by simp
    then have "(2::rat) powi (?e - 1) = 2 powi ((bitlen a - 1) - bitlen b)"
      by (rule arg_cong)
    also have "\<dots> = 2 powi (bitlen a - 1) / 2 powi (bitlen b)"
      by (rule power_int_diff) simp
    also have "\<dots> \<le> of_int a / of_int b"
      using 1 2 a b by (intro frac_le) simp_all
    finally have "(2::rat) powi (?e - 1) \<le> \<bar>x\<bar>" unfolding x .
    with False show ?thesis by (simp add: exponent_def q Let_def)
  qed
qed

lemma exponent_less:
  assumes "x \<noteq> 0"
  shows "\<bar>x\<bar> < 2 powi (exponent x + 1)"
proof -
  obtain a b where q: "quotient_of \<bar>x\<bar> = (a, b)" by (cases "quotient_of \<bar>x\<bar>")
  have b: "b > 0" using q by (rule quotient_of_denom_pos)
  have x: "\<bar>x\<bar> = of_int a / of_int b" using q by (rule quotient_of_div)
  have "\<bar>x\<bar> > 0" using assms by simp
  then have a: "a > 0" using b unfolding x by (simp add: zero_less_divide_iff)
  let ?e = "bitlen a - bitlen b"
  show ?thesis
  proof (cases "2 powi ?e \<le> \<bar>x\<bar>")
    case False
    then show ?thesis by (simp add: exponent_def q Let_def)
  next
    case True
    have la: "a < (2::int) ^ nat (bitlen a)" using bitlen_bounds[OF a] by simp
    have lb: "(2::int) ^ nat (bitlen b - 1) \<le> b" using bitlen_bounds[OF b] by simp
    have ba: "bitlen a \<ge> 1" using a by (auto simp: bitlen_alt_def)
    have bb: "bitlen b \<ge> 1" using b by (auto simp: bitlen_alt_def)
    have 1: "of_int a < (2::rat) powi (bitlen a)"
    proof -
      have "(of_int a :: rat) < of_int (2 ^ nat (bitlen a))"
        using la by (simp only: of_int_less_iff)
      also have "\<dots> = (2::rat) powi (bitlen a)"
        using ba by (simp add: power_int_def)
      finally show ?thesis .
    qed
    have 2: "(2::rat) powi (bitlen b - 1) \<le> of_int b"
    proof -
      have "(2::rat) powi (bitlen b - 1) = of_int (2 ^ nat (bitlen b - 1))"
        using bb by (simp add: power_int_def)
      also have "\<dots> \<le> of_int b" using lb by (simp only: of_int_le_iff)
      finally show ?thesis .
    qed
    have "of_int a / of_int b < (2::rat) powi (bitlen a) / 2 powi (bitlen b - 1)"
      using 1 2 a b by (intro frac_less) simp_all
    also have "\<dots> = 2 powi (bitlen a - (bitlen b - 1))"
      by (rule power_int_diff[symmetric]) simp
    also have "bitlen a - (bitlen b - 1) = ?e + 1" by simp
    finally have "\<bar>x\<bar> < 2 powi (?e + 1)" unfolding x .
    with True show ?thesis by (simp add: exponent_def q Let_def)
  qed
qed

lemma float64_error:
  "\<bar>float64 x - x\<bar> \<le> \<bar>x\<bar> / 2 ^ 53"
proof (cases "x = 0")
  case True
  then show ?thesis by (simp add: float64_def)
next
  case False
  let ?u = "(2::rat) powi (exponent x - 52)"
  have up: "?u > 0" by simp
  have "\<bar>of_int (round_half_even (x / ?u)) - x / ?u\<bar> \<le> 1 / 2"
    by (rule round_half_even_bound)
  then have "\<bar>of_int (round_half_even (x / ?u)) - x / ?u\<bar> * ?u \<le> 1 / 2 * ?u"
    using up by (intro mult_right_mono) simp_all
  moreover have "\<bar>of_int (round_half_even (x / ?u)) - x / ?u\<bar> * ?u =
        \<bar>of_int (round_half_even (x / ?u)) * ?u - x\<bar>"
  proof -
    have "\<bar>of_int (round_half_even (x / ?u)) - x / ?u\<bar> * ?u =
          \<bar>(of_int (round_half_even (x / ?u)) - x / ?u) * ?u\<bar>"
      using up by (simp add: abs_mult)
    also have "(of_int (round_half_even (x / ?u)) - x / ?u) * ?u =
               of_int (round_half_even (x / ?u)) * ?u - x"
      using up by (simp add: field_simps)
    finally show ?thesis .
  qed
  ultimately have e: "\<bar>float64 x - x\<bar> \<le> 1 / 2 * ?u"
    using False by (simp add: float64_def Let_def)
  have "?u = 2 powi (exponent x) / 2 powi 52"
    by (rule power_int_diff) simp
  then have "?u = 2 powi (exponent x) / 2 ^ 52"
    by (simp add: power_int_def)
  then have "1 / 2 * ?u = 2 powi (exponent x) / 2 ^ 53" by simp
  also have "\<dots> \<le> \<bar>x\<bar> / 2 ^ 53"
    using exponent_le[OF False] by (intro divide_right_mono) simp_all
  finally show ?thesis using e by linarith
qed

lemma float64_zero_iff: "float64 x = 0 \<longleftrightarrow> x = 0"
proof
  assume z: "float64 x = 0"
  show "x = 0"
  proof (rule ccontr)
    assume "x \<noteq> 0"
    then have p: "\<bar>x\<bar> > 0" by simp
    from float64_error[of x] z have "\<bar>x\<bar> \<le> \<bar>x\<bar> / 2 ^ 53" by simp
    then have "\<bar>x\<bar> * 2 ^ 53 \<le> \<bar>x\<bar>" by (simp add: field_simps)
    with p show False by simp
  qed
next
  assume "x = 0"
  then show "float64 x = 0" by (simp add: float64_def)
qed

lemma rounding_step:
  fixes f x y e u :: rat
  assumes f: "\<bar>f - y\<bar> \<le> u * \<bar>y\<bar>" and y: "\<bar>y - x\<bar> \<le> e * \<bar>x\<bar>" and u: "0 \<le> u"
  shows "\<bar>f - x\<bar> \<le> (e + u * (1 + e)) * \<bar>x\<bar>"
proof -
  have "\<bar>y\<bar> \<le> \<bar>x\<bar> + \<bar>y - x\<bar>" by linarith
  with y have "\<bar>y\<bar> \<le> \<bar>x\<bar> + e * \<bar>x\<bar>" by linarith
  then have "u * \<bar>y\<bar> \<le> u * (\<bar>x\<bar> + e * \<bar>x\<bar>)" using u by (rule mult_left_mono)
  with f have 1: "\<bar>f - y\<bar> \<le> u * (\<bar>x\<bar> + e * \<bar>x\<bar>)" by linarith
  have "\<bar>f - x\<bar> \<le> \<bar>f - y\<bar> + \<bar>y - x\<bar>" by linarith
  with 1 y have "\<bar>f - x\<bar> \<le> u * (\<bar>x\<bar> + e * \<bar>x\<bar>) + e * \<bar>x\<bar>" by linarith
  also have "\<dots> = (e + u * (1 + e)) * \<bar>x\<bar>" by (simp add: algebra_simps)
  finally show ?thesis .
qed

lemma float64_rel: "\<bar>float64 x - x\<bar> \<le> unit_roundoff * \<bar>x\<bar>"
  using float64_error[of x] by (simp add: unit_roundoff_def)

lemma three_roundings:
  fixes u :: rat
  assumes "0 \<le> u" "u \<le> 1"
  shows "(u + u * (1 + u)) + u * (1 + (u + u * (1 + u))) \<le> 8 * u"
proof -
  have uu: "u * u \<le> u" using assms by (metis mult_left_le)
  have "u * u * u \<le> u * u" using assms uu by (metis mult_left_le mult_nonneg_nonneg)
  with uu have uuu: "u * u * u \<le> u" by linarith
  have "(u + u * (1 + u)) + u * (1 + (u + u * (1 + u))) = 3 * u + 3 * (u * u) + u * u * u"
    by (simp add: algebra_simps)
  with uu uuu assms(1) show ?thesis by linarith
qed

lemma abs_times_100: "\<bar>z * 100\<bar> = \<bar>z\<bar> * (100::rat)"
  by (simp add: abs_mult)

lemma change_error:
  "\<bar>float64 (float64 (float64 (a - b) / b) * 100) - (a - b) / b * 100\<bar>
         \<le> \<bar>(a - b) / b * 100\<bar> / 2 ^ 50"
proof -
  let ?u = unit_roundoff
  let ?e1 = "?u"
  let ?e2 = "?e1 + ?u * (1 + ?e1)"
  let ?e3 = "?e2 + ?u * (1 + ?e2)"
  let ?X = "(a - b) / b"
  have u0: "0 \<le> ?u" "?u \<le> 1" by (simp_all add: unit_roundoff_def)
  have 1: "\<bar>float64 (a - b) - (a - b)\<bar> \<le> ?e1 * \<bar>a - b\<bar>"
    by (rule float64_rel)
  have "\<bar>float64 (a - b) / b - ?X\<bar> = \<bar>(float64 (a - b) - (a - b)) / b\<bar>"
    by (simp only: diff_divide_distrib)
  also have "\<dots> = \<bar>float64 (a - b) - (a - b)\<bar> / \<bar>b\<bar>" by (rule abs_divide)
  also have "\<dots> \<le> ?e1 * \<bar>a - b\<bar> / \<bar>b\<bar>"
    using 1 by (rule divide_right_mono) simp
  also have "\<dots> = ?e1 * \<bar>?X\<bar>" by (simp only: abs_divide times_divide_eq_right)
  finally have 2: "\<bar>float64 (a - b) / b - ?X\<bar> \<le> ?e1 * \<bar>?X\<bar>" .
  have 3: "\<bar>float64 (float64 (a - b) / b) - ?X\<bar> \<le> ?e2 * \<bar>?X\<bar>"
    by (rule rounding_step[OF float64_rel 2 u0(1)])
  have "\<bar>float64 (float64 (a - b) / b) * 100 - ?X * 100\<bar> =
        \<bar>(float64 (float64 (a - b) / b) - ?X) * 100\<bar>"
    by (simp only: left_diff_distrib)
  also have "\<dots> = \<bar>float64 (float64 (a - b) / b) - ?X\<bar> * 100"
    by (rule abs_times_100)
  also have "\<dots> \<le> ?e2 * \<bar>?X\<bar> * 100"
    using 3 by (rule mult_right_mono) simp
  also have "\<dots> = ?e2 * \<bar>?X * 100\<bar>" by (simp only: abs_times_100 mult.assoc)
  finally have 4: "\<bar>float64 (float64 (a - b) / b) * 100 - ?X * 100\<bar> \<le> ?e2 * \<bar>?X * 100\<bar>" .
  have 5: "\<bar>float64 (float64 (float64 (a - b) / b) * 100) - ?X * 100\<bar> \<le> ?e3 * \<bar>?X * 100\<bar>"
    by (rule rounding_step[OF float64_rel 4 u0(1)])
  have "?e3 \<le> 8 * ?u" by (rule three_roundings[OF u0])
  then have "?e3 * \<bar>?X * 100\<bar> \<le> 8 * ?u * \<bar>?X * 100\<bar>"
    by (rule mult_right_mono) simp
  also have "8 * ?u = 1 / 2 ^ 50" by (simp add: unit_roundoff_def)
  finally have "?e3 * \<bar>?X * 100\<bar> \<le> \<bar>?X * 100\<bar> / 2 ^ 50" by simp
  with 5 show ?thesis by linarith
qed

lemma generate_summary_eq:
  assumes "news_articles st \<noteq> []"
    and "count_sentiment scorer (news_articles st) (0, 0, 0) = (p, n, u)"
  shows "generate_summary ul scorer cn (fetch_stock_data closes st) =
     Inr (Summary
       \<lparr>company = cn,
        symbol = ticker st,
        total_articles = length (news_articles st),
        overall_line = overall_sentiment p n,
        positive_count = p,
        positive_pct = format_f 1 (of_nat p / of_nat (length (news_articles st)) * 100),
        negative_count = n,
        negative_pct = format_f 1 (of_nat n / of_nat (length (news_articles st)) * 100),
        neutral_count = u,
        neutral_pct = format_f 1 (of_nat u / of_nat (length (news_articles st)) * 100),
        topics = topic_lines ul (news_articles st),
        key_highlights = highlights (news_articles st),
        market = (if length closes > 1
                  then Some (format_f 2 (float64 (closes ! (length closes - 1))),
                             format_fval 2 (price_change closes))
                  else None),
        closing_statement = conclusion p n\<rparr>)"
  using assms
  by (simp add: generate_summary_def fetch_stock_data_def percent_def market_context_def Let_def)

lemma counts_as_filters:
  assumes "count_sentiment scorer arts (0, 0, 0) = (p, n, u)"
  shows "p = length (filter (\<lambda>a. scorer (article_text a) > 1 / 10) arts)"
    and "n = length (filter (\<lambda>a. scorer (article_text a) < - (1 / 10)) arts)"
    and "u = length (filter (\<lambda>a. - (1 / 10) \<le> scorer (article_text a) \<and> scorer (article_text a) \<le> 1 / 10) arts)"
proof -
  have eq: "(\<lambda>a. \<not> scorer (article_text a) > 1 / 10 \<and> scorer (article_text a) < - (1 / 10)) =
        (\<lambda>a. scorer (article_text a) < - (1 / 10))"
    by (rule ext) auto
  have eq2: "(\<lambda>a. \<not> scorer (article_text a) > 1 / 10 \<and> \<not> scorer (article_text a) < - (1 / 10)) =
        (\<lambda>a. - (1 / 10) \<le> scorer (article_text a) \<and> scorer (article_text a) \<le> 1 / 10)"
    by (rule ext) auto
  from assms show "p = length (filter (\<lambda>a. scorer (article_text a) > 1 / 10) arts)"
    and "n = length (filter (\<lambda>a. scorer (article_text a) < - (1 / 10)) arts)"
    and "u = length (filter (\<lambda>a. - (1 / 10) \<le> scorer (article_text a) \<and> scorer (article_text a) \<le> 1 / 10) arts)"
    unfolding count_sentiment_eq eq eq2 by simp_all
qed

lemma fetch_news_none:
  assumes "fst (fetch_loop (ladder_results api cn (ticker_short st)) ([], {})) = []"
  shows "fetch_news api cn st = (False, st)"
  using assms by (simp add: fetch_news_def Let_def)

lemma main_analysis_none:
  assumes "fst (fetch_loop (ladder_results api cn (ticker_short (fetch_stock_data h (init t k)))) ([], {})) = []"
  shows "main_analysis api h ul scorer cn t k = Cannot_proceed"
  using fetch_news_none[OF assms] by (simp add: main_analysis_def Let_def)

lemma price_change_eq:
  assumes "2 \<le> length closes" "last (butlast closes) \<noteq> 0"
  shows "price_change closes =
     Fin (float64 (float64 (float64 (float64 (last closes) - float64 (last (butlast closes)))
                              / float64 (last (butlast closes))) * 100))"
proof -
  have ne: "closes \<noteq> []" using assms(1) by auto
  have ne': "butlast closes \<noteq> []"
  proof
    assume a: "butlast closes = []"
    have "length (butlast closes) = length closes - 1" by simp
    with a assms(1) show False by simp
  qed
  have l: "closes ! (length closes - 1) = last closes" using ne by (simp add: last_conv_nth)
  have "last (butlast closes) = butlast closes ! (length (butlast closes) - 1)"
    using ne' by (rule last_conv_nth)
  also have "\<dots> = closes ! (length closes - 2)"
    using assms(1) by (simp add: nth_butlast numeral_2_eq_2)
  finally have p: "closes ! (length closes - 2) = last (butlast closes)" by simp
  have nz: "float64 (last (butlast closes)) \<noteq> 0"
    using assms(2) by (simp add: float64_zero_iff)
  show ?thesis unfolding price_change_def Let_def l p np_div_def using nz by simp
qed

lemma last_as_nth: "2 \<le> length closes \<Longrightarrow> closes ! (length closes - 1) = last closes"
  by (cases closes) (simp_all add: last_conv_nth)














text \<open>The example scorer on the example articles.\<close>

lemma example_scores:
  "example_scorer (article_text up_article) = 1 / 2"
  "example_scorer (article_text down_article) = - (1 / 2)"
  "example_scorer (article_text flat_article) = 0"
  by (simp_all add: example_scorer_def article_text_def up_article_def down_article_def
      flat_article_def example_article_def dict_get_def)

lemma example_state_articles: "news_articles (example_state arts) = arts"
  by (simp add: example_state_def init_def)

lemma example_filters:
  "filter (\<lambda>a. example_scorer (article_text a) > 1 / 10)
      (replicate i up_article @ replicate j down_article @ replicate k flat_article)
     = replicate i up_article"
  "filter (\<lambda>a. example_scorer (article_text a) < - (1 / 10))
      (replicate i up_article @ replicate j down_article @ replicate k flat_article)
     = replicate j down_article"
  by (simp_all add: example_scores filter_replicate)

section \<open>Results on fetching\<close>

text \<open>
  C1 (as amended). The aggregated article list is the concatenation of the batches, without
  the articles whose url is missing or empty, filtered to the first occurrence of each url
  in first-seen order and truncated at the cap of 20. This holds for every sequence of
  query outcomes fed to the loop and for \<^verbatim>\<open>fetch_news\<close> on a fresh analyzer. Hence the
  list never holds more than 20 articles and no two of them share a url.
\<close>

theorem fetch_news_first_seen_capped:
  "fst (fetch_loop rs ([], {})) = spec_aggregate (map (filter has_url \<circ> batch_of) rs)
   \<and> news_articles (snd (fetch_news api cn (init t k))) =
       spec_aggregate (map (filter has_url \<circ> batch_of)
          (ladder_results api cn (ticker_short (init t k))))
   \<and> length (news_articles (snd (fetch_news api cn (init t k)))) \<le> 20
   \<and> distinct (map url_of (news_articles (snd (fetch_news api cn (init t k)))))"
proof -
  have agg: "spec_aggregate (map (filter has_url \<circ> batch_of) rs) =
             take 20 (first_by_url (filter has_url (concat (map batch_of rs))))" for rs
    by (simp add: spec_aggregate_def filter_concat comp_def)
  let ?xs = "take 20 (first_by_url (filter has_url
          (concat (map batch_of (ladder_results api cn (ticker_short (init t k)))))))"
  have a: "news_articles (snd (fetch_news api cn (init t k))) = ?xs"
    by (simp add: fetch_news_eq Let_def init_def)
  have d: "distinct (map url_of ?xs)"
    by (simp add: first_by_url_dedup take_map[symmetric] distinct_take dedup_distinct)
  have l: "length ?xs \<le> 20" by simp
  show ?thesis unfolding agg a using d l by (simp only: fetch_loop_start fst_conv simp_thms)
qed

text \<open>
  Two overlapping batches of 12 and 24 articles: the aggregate is the articles 0 to 19 in
  first-seen order. The flaky provider: the one article with a url is the aggregate.
\<close>

theorem fetch_news_first_seen_capped_witness:
  "news_articles (snd (fetch_news provider_many ''Acme'' (init ''ACME.NS'' ''key''))) =
     map numbered_article [0..<20]
   \<and> spec_aggregate (map (filter has_url \<circ> batch_of)
          (ladder_results provider_many ''Acme'' (ticker_short (init ''ACME.NS'' ''key'')))) =
     map numbered_article [0..<20]
   \<and> news_articles (snd (fetch_news provider_flaky ''Acme'' (init ''ACME.NS'' ''key''))) =
     [example_article ''Up on results'' ''Profit rose'' ''https://a.example/1'']"
proof -
  have a: "news_articles (snd (fetch_news provider_many ''Acme'' (init ''ACME.NS'' ''key''))) =
     map numbered_article [0..<20]"
    by code_simp
  have b: "news_articles (snd (fetch_news provider_flaky ''Acme'' (init ''ACME.NS'' ''key''))) =
     [example_article ''Up on results'' ''Profit rose'' ''https://a.example/1'']"
    by (simp add: fetch_news_def ladder_results_def search_queries_def ticker_short_def init_def
      provider_flaky_def example_article_def dict_get_def Let_def)
  from fetch_news_first_seen_capped[of "[]" provider_many "''Acme''" "''ACME.NS''" "''key''"]
  have e: "news_articles (snd (fetch_news provider_many ''Acme'' (init ''ACME.NS'' ''key''))) =
       spec_aggregate (map (filter has_url \<circ> batch_of)
          (ladder_results provider_many ''Acme'' (ticker_short (init ''ACME.NS'' ''key''))))"
    by blast
  show ?thesis using a b e by simp
qed

text \<open>
  C1 as stated fails: a batch of one article whose url is the empty string. The first
  occurrence of each url keeps that article; the loop admits nothing.
\<close>

theorem empty_url_dropped_counterexample:
  "fst (fetch_loop [Response (Some ''ok'') (Some [example_article ''Results'' ''Out now'' []])] ([], {})) = []
   \<and> spec_aggregate (map batch_of [Response (Some ''ok'') (Some [example_article ''Results'' ''Out now'' []])])
       = [example_article ''Results'' ''Out now'' []]
   \<and> news_articles (snd (fetch_news provider_no_url ''Acme'' (init ''ACME.NS'' ''key''))) \<noteq>
       spec_aggregate (map batch_of
         (ladder_results provider_no_url ''Acme'' (ticker_short (init ''ACME.NS'' ''key''))))"
  by (simp add: fetch_news_def ladder_results_def search_queries_def ticker_short_def init_def
      provider_no_url_def example_article_def spec_aggregate_def first_by_url_def batch_of_def
      dict_get_def url_of_def upt_conv_Cons Let_def)

text \<open>
  C7 (as amended). The ladder has five queries, and no failure of a query aborts the
  fetch. A query that fails outright (an exception of the request, or a status other than
  \<^verbatim>\<open>"ok"\<close>) leaves the loop state as it was and the loop goes on with the next
  query; the whole loop gives the same result as on the outcomes that did not fail outright.
  A query whose exception is raised in mid-batch keeps what the articles before the
  exception admitted, as an \<^verbatim>\<open>"ok"\<close> response with just these articles would, and the
  loop goes on with the next query. \<^verbatim>\<open>fetch_news\<close> returns \<open>True\<close> whenever some
  query yields, before any exception of its own, at least one article with a non-empty url.
\<close>

theorem failed_query_is_skipped:
  "length (ladder_results api cn (ticker_short st)) = 5
   \<and> (fails_outright r \<longrightarrow> process_query r s = s \<and> fetch_loop (r # rs) s = fetch_loop rs s)
   \<and> fetch_loop rs s = fetch_loop (filter (\<lambda>r. \<not> fails_outright r) rs) s
   \<and> process_query (Raises_in_batch arts) s = process_query (Response (Some ''ok'') (Some arts)) s
   \<and> fetch_loop (Raises_in_batch arts # rs) s =
       fetch_loop (Response (Some ''ok'') (Some arts) # rs) s
   \<and> ((\<exists>r \<in> set (ladder_results api cn (ticker_short st)). \<exists>a \<in> set (batch_of r). has_url a)
        \<longrightarrow> fst (fetch_news api cn st))"
  using fetch_loop_filter_failed[of rs s] fetch_news_True_iff[of api cn st]
    raises_in_batch_as_ok(1)[of arts s] raises_in_batch_as_ok(2)[of arts rs s]
  by (simp add: length_ladder failed_process failed_skip del: fetch_loop.simps process_query.simps)

text \<open>
  The flaky provider: the first query raises, the second has an error status, and the fetch
  succeeds with the article of the third. The provider whose every list breaks after one
  article: the fetch succeeds with that article.
\<close>

theorem failed_query_is_skipped_witness:
  "fails_outright Raises \<and> fails_outright (Response (Some ''error'') None)
   \<and> process_query Raises ([], {}) = ([], {})
   \<and> fetch_loop (Raises # [Response (Some ''error'') None]) ([], {}) =
       fetch_loop [Response (Some ''error'') None] ([], {})
   \<and> fst (fetch_news provider_flaky ''Acme'' (init ''ACME.NS'' ''key''))
   \<and> news_articles (snd (fetch_news provider_flaky ''Acme'' (init ''ACME.NS'' ''key''))) =
       [example_article ''Up on results'' ''Profit rose'' ''https://a.example/1'']
   \<and> fst (fetch_news provider_breaks ''Acme'' (init ''ACME.NS'' ''key''))"
  using failed_query_is_skipped[of provider_flaky "''Acme''" "init ''ACME.NS'' ''key''" Raises
      "([], {})" "[Response (Some ''error'') None]"]
  by (simp add: fetch_news_def ladder_results_def search_queries_def ticker_short_def init_def
      provider_flaky_def provider_breaks_def example_article_def dict_get_def fails_outright_def
      Let_def)

text \<open>
  C7 as stated fails twice. Every query succeeds and returns one article, whose url is
  empty, and \<^verbatim>\<open>fetch_news\<close> returns \<open>False\<close>. Every query fails by an exception,
  raised after one article of its list has been read, and that article is contributed:
  \<^verbatim>\<open>fetch_news\<close> returns \<open>True\<close> and holds it.
\<close>

theorem article_without_url_counterexample:
  "\<not> fails_outright (provider_no_url 0 ''Acme'')
   \<and> batch_of (provider_no_url 0 ''Acme'') = [example_article ''Results'' ''Out now'' []]
   \<and> \<not> fst (fetch_news provider_no_url ''Acme'' (init ''ACME.NS'' ''key''))
   \<and> provider_breaks 0 ''Acme'' =
       Raises_in_batch [example_article ''Up on results'' ''Profit rose'' ''https://a.example/1'']
   \<and> process_query (provider_breaks 0 ''Acme'') ([], {}) \<noteq> ([], {})
   \<and> fetch_news provider_breaks ''Acme'' (init ''ACME.NS'' ''key'') =
       (True, (init ''ACME.NS'' ''key'')
          \<lparr>news_articles :=
             [example_article ''Up on results'' ''Profit rose'' ''https://a.example/1'']\<rparr>)"
  by (simp add: fetch_news_def ladder_results_def search_queries_def ticker_short_def init_def
      provider_no_url_def provider_breaks_def example_article_def batch_of_def
      fails_outright_def dict_get_def Let_def)

text \<open>
  C10. Every article held after the loop, and after \<^verbatim>\<open>fetch_news\<close> on a fresh
  analyzer, has a url that is present and non-empty; the empty string never enters the set
  of seen urls; and an article whose url is missing or empty leaves the loop state as it
  was, so it cannot mask a later article.
\<close>

theorem no_url_never_admitted:
  "(\<forall>a \<in> set (fst (fetch_loop rs ([], {}))). \<exists>u. url a = Some u \<and> u \<noteq> [])
   \<and> (\<forall>a \<in> set (news_articles (snd (fetch_news api cn (init t k)))). \<exists>u. url a = Some u \<and> u \<noteq> [])
   \<and> [] \<notin> snd (fetch_loop rs ([], {}))
   \<and> ((url a = None \<or> url a = Some []) \<longrightarrow> admit_batch (a # rest) s = admit_batch rest s)"
proof -
  have 1: "\<forall>a \<in> set (fst (fetch_loop rs ([], {}))). \<exists>u. url a = Some u \<and> u \<noteq> []" for rs
    using fetch_loop_all_have_url[of _ rs] by (simp add: has_url_iff)
  have 2: "news_articles (snd (fetch_news api cn (init t k))) =
           fst (fetch_loop (ladder_results api cn (ticker_short (init t k))) ([], {}))"
    by (simp add: fetch_news_eq fetch_loop_start Let_def init_def)
  have 3: "(url a = None \<or> url a = Some []) \<longrightarrow> admit_batch (a # rest) s = admit_batch rest s"
  proof
    assume "url a = None \<or> url a = Some []"
    then have "\<not> has_url a" by (auto simp: has_url_iff)
    then show "admit_batch (a # rest) s = admit_batch rest s" by (rule admit_no_url)
  qed
  from 1[of rs] 1[of "ladder_results api cn (ticker_short (init t k))"] 2 3 fetch_loop_seen[of rs]
  show ?thesis by (simp only: simp_thms)
qed

text \<open>
  The flaky provider, and a batch that starts with an article whose url is empty: the
  article after it is admitted all the same.
\<close>

theorem no_url_never_admitted_witness:
  "news_articles (snd (fetch_news provider_flaky ''Acme'' (init ''ACME.NS'' ''key''))) =
       [example_article ''Up on results'' ''Profit rose'' ''https://a.example/1'']
   \<and> url (example_article ''Up on results'' ''Profit rose'' ''https://a.example/1'') = Some ''https://a.example/1''
   \<and> snd (fetch_loop (ladder_results provider_flaky ''Acme'' ''ACME'') ([], {})) = {''https://a.example/1''}
   \<and> admit_batch [example_article ''Results'' ''Out now'' [],
                    example_article ''Up on results'' ''Profit rose'' ''https://a.example/1''] ([], {})
       = admit_batch [example_article ''Up on results'' ''Profit rose'' ''https://a.example/1''] ([], {})
   \<and> fst (admit_batch [example_article ''Results'' ''Out now'' [],
                    example_article ''Up on results'' ''Profit rose'' ''https://a.example/1''] ([], {}))
       = [example_article ''Up on results'' ''Profit rose'' ''https://a.example/1'']"
  using no_url_never_admitted[of "ladder_results provider_flaky ''Acme'' ''ACME''" provider_flaky
      "''Acme''" "''ACME.NS''" "''key''" "example_article ''Results'' ''Out now'' []"
      "[example_article ''Up on results'' ''Profit rose'' ''https://a.example/1'']" "([], {})"]
  by (simp add: fetch_news_def ladder_results_def search_queries_def ticker_short_def init_def
      provider_flaky_def example_article_def dict_get_def Let_def)

section \<open>Results on the summary\<close>

text \<open>
  C2 (the program breaks it). \<^verbatim>\<open>generate_summary\<close> scores title, a full stop and a
  space, description; the label of the article list in \<^verbatim>\<open>main\<close> scores title, a
  space, description. For the article titled \<open>Not\<close> and described as \<open>good\<close> the two
  texts differ, and with a scorer that tells them apart one run of \<^verbatim>\<open>main\<close> counts the
  article in the positive bucket of the summary and labels it negative in the list.
\<close>

theorem sentiment_text_differs_in_article_list:
  "article_text (example_article ''Not'' ''good'' ''https://a.example/n'') = ''Not. good''
   \<and> display_text (example_article ''Not'' ''good'' ''https://a.example/n'') = ''Not good''
   \<and> count_sentiment punctuation_scorer [example_article ''Not'' ''good'' ''https://a.example/n''] (0, 0, 0)
       = (1, 0, 0)
   \<and> display_label punctuation_scorer (example_article ''Not'' ''good'' ''https://a.example/n'')
       = Negative
   \<and> (\<exists>s. main_analysis provider_not_good [100, 105] example_lower punctuation_scorer ''Acme'' ''ACME.NS'' ''key''
          = Report (Summary s) [Negative]
        \<and> positive_count s = 1 \<and> negative_count s = 0 \<and> neutral_count s = 0)"
proof -
  let ?a = "example_article ''Not'' ''good'' ''https://a.example/n''"
  let ?st = "fetch_stock_data [100, 105] (init ''ACME.NS'' ''key'')"
  have 1: "article_text ?a = ''Not. good''" "display_text ?a = ''Not good''"
    by (simp_all add: article_text_def display_text_def example_article_def dict_get_def)
  have 2: "count_sentiment punctuation_scorer [?a] (0, 0, 0) = (1, 0, 0)"
    by (simp add: 1 punctuation_scorer_def Let_def)
  have 3: "display_label punctuation_scorer ?a = Negative"
    by (simp add: display_label_def 1 punctuation_scorer_def Let_def)
  have f: "fetch_news provider_not_good ''Acme'' ?st = (True, ?st\<lparr>news_articles := [?a]\<rparr>)"
    by (simp add: fetch_news_def ladder_results_def search_queries_def provider_not_good_def
        example_article_def dict_get_def Let_def)
  have st: "?st\<lparr>news_articles := [?a]\<rparr> =
            fetch_stock_data [100, 105] ((init ''ACME.NS'' ''key'')\<lparr>news_articles := [?a]\<rparr>)"
    by (simp add: fetch_stock_data_def)
  have ne: "news_articles ((init ''ACME.NS'' ''key'')\<lparr>news_articles := [?a]\<rparr>) \<noteq> []" by simp
  have c: "count_sentiment punctuation_scorer
             (news_articles ((init ''ACME.NS'' ''key'')\<lparr>news_articles := [?a]\<rparr>)) (0, 0, 0) = (1, 0, 0)"
    using 2 by simp
  have 4: "\<exists>s. main_analysis provider_not_good [100, 105] example_lower punctuation_scorer ''Acme'' ''ACME.NS'' ''key''
          = Report (Summary s) [Negative]
        \<and> positive_count s = 1 \<and> negative_count s = 0 \<and> neutral_count s = 0"
    unfolding main_analysis_def Let_def f st
    using generate_summary_eq[OF ne c, of example_lower "''Acme''" "[100, 105]"] 3
    by (simp add: fetch_stock_data_def)
  from 1 2 3 4 show ?thesis by blast
qed

text \<open>
  C3. For a non-empty article list, and whatever price history has been fetched,
  \<^verbatim>\<open>generate_summary\<close> returns a summary in which
  each article is counted in exactly one bucket (positive above 0.1, negative below -0.1,
  neutral between), the three counts add up to the number of articles, each percentage is
  the count over the total times 100 rounded to one decimal, and the three percentages add
  up to 100 within 0.1.
\<close>

theorem percentages_sum_to_100:
  assumes "news_articles st \<noteq> []"
  shows "\<exists>s. generate_summary ul scorer cn (fetch_stock_data closes st) = Inr (Summary s)
     \<and> positive_count s = length (filter (\<lambda>a. scorer (article_text a) > 1 / 10) (news_articles st))
     \<and> negative_count s = length (filter (\<lambda>a. scorer (article_text a) < - (1 / 10)) (news_articles st))
     \<and> neutral_count s = length (filter (\<lambda>a. - (1 / 10) \<le> scorer (article_text a) \<and> scorer (article_text a) \<le> 1 / 10) (news_articles st))
     \<and> total_articles s = length (news_articles st)
     \<and> positive_count s + negative_count s + neutral_count s = total_articles s
     \<and> positive_pct s = format_f 1 (of_nat (positive_count s) / of_nat (total_articles s) * 100)
     \<and> negative_pct s = format_f 1 (of_nat (negative_count s) / of_nat (total_articles s) * 100)
     \<and> neutral_pct s = format_f 1 (of_nat (neutral_count s) / of_nat (total_articles s) * 100)
     \<and> \<bar>positive_pct s + negative_pct s + neutral_pct s - 100\<bar> \<le> 1 / 10"
proof -
  obtain p n u where c: "count_sentiment scorer (news_articles st) (0, 0, 0) = (p, n, u)"
    by (metis prod_cases3)
  let ?t = "length (news_articles st)"
  have t: "?t > 0" using assms by simp
  have sum: "p + n + u = ?t" using count_sentiment_total[OF c] by simp
  have "\<bar>format_f 1 (of_nat p / of_nat ?t * 100) + format_f 1 (of_nat n / of_nat ?t * 100)
          + format_f 1 (of_nat u / of_nat ?t * 100) - 100\<bar> \<le> 1 / 10"
    by (rule three_rounded_sum[OF percent_sum[OF t sum]])
  then show ?thesis
    using generate_summary_eq[OF assms c, of ul cn closes] counts_as_filters[OF c] sum
    by simp
qed

text \<open>
  One positive, one negative and one neutral article: each percentage is 33.3 and the sum
  99.9.
\<close>

theorem percentages_sum_to_100_witness:
  "news_articles (example_state [up_article, down_article, flat_article]) \<noteq> []
   \<and> (\<exists>s. generate_summary example_lower example_scorer ''Acme''
             (fetch_stock_data [100, 105] (example_state [up_article, down_article, flat_article]))
            = Inr (Summary s)
        \<and> positive_count s = 1 \<and> negative_count s = 1 \<and> neutral_count s = 1
        \<and> total_articles s = 3
        \<and> positive_pct s = 333 / 10 \<and> negative_pct s = 333 / 10 \<and> neutral_pct s = 333 / 10
        \<and> \<bar>positive_pct s + negative_pct s + neutral_pct s - 100\<bar> \<le> 1 / 10)"
proof -
  have h: "news_articles (example_state [up_article, down_article, flat_article]) \<noteq> []"
    by (simp add: example_state_articles)
  have f: "format_f 1 (1 / 3 * 100) = 333 / 10"
    by code_simp
  from percentages_sum_to_100[OF h, of example_lower example_scorer "''Acme''" "[100, 105]"]
  obtain s where g: "generate_summary example_lower example_scorer ''Acme''
             (fetch_stock_data [100, 105] (example_state [up_article, down_article, flat_article]))
            = Inr (Summary s)"
    and c: "positive_count s = 1" "negative_count s = 1" "neutral_count s = 1" "total_articles s = 3"
    and p: "positive_pct s = format_f 1 (of_nat (positive_count s) / of_nat (total_articles s) * 100)"
      "negative_pct s = format_f 1 (of_nat (negative_count s) / of_nat (total_articles s) * 100)"
      "neutral_pct s = format_f 1 (of_nat (neutral_count s) / of_nat (total_articles s) * 100)"
    and b: "\<bar>positive_pct s + negative_pct s + neutral_pct s - 100\<bar> \<le> 1 / 10"
    by (auto simp add: example_state_articles example_scores)
  have v: "positive_pct s = 333 / 10" "negative_pct s = 333 / 10" "neutral_pct s = 333 / 10"
    unfolding p c using f by simp_all
  show ?thesis using h g c v b by blast
qed

text \<open>
  C4. For a non-empty article list, and whatever price history has been fetched, the
  summary is returned and its closing statement follows the strict ratio rule on
  the bucket counts: strongly positive when the positive count exceeds one and a half
  times the negative count (twice the one exceeds three times the other), else concerning
  when the negative count exceeds one and a half times the positive count, else balanced.
  So 10 against 2 is strongly positive, 2 against 10 concerning and 5 against 5 balanced.
\<close>

theorem closing_statement_ratio_rule:
  assumes "news_articles st \<noteq> []"
  shows "\<exists>s. generate_summary ul scorer cn (fetch_stock_data closes st) = Inr (Summary s)
     \<and> positive_count s = length (filter (\<lambda>a. scorer (article_text a) > 1 / 10) (news_articles st))
     \<and> negative_count s = length (filter (\<lambda>a. scorer (article_text a) < - (1 / 10)) (news_articles st))
     \<and> closing_statement s =
        (if 2 * positive_count s > 3 * negative_count s then Strongly_Positive
         else if 2 * negative_count s > 3 * positive_count s then Concerning
         else Balanced)
     \<and> conclusion 10 2 = Strongly_Positive
     \<and> conclusion 2 10 = Concerning
     \<and> conclusion 5 5 = Balanced"
proof -
  obtain p n u where c: "count_sentiment scorer (news_articles st) (0, 0, 0) = (p, n, u)"
    by (metis prod_cases3)
  have r: "((of_nat a :: rat) > of_nat b * (3 / 2)) \<longleftrightarrow> 2 * a > 3 * b" for a b :: nat
  proof -
    have "((of_nat a :: rat) > of_nat b * (3 / 2)) \<longleftrightarrow> (of_nat (3 * b) :: rat) < of_nat (2 * a)"
      by (simp add: field_simps)
    then show ?thesis unfolding of_nat_less_iff .
  qed
  show ?thesis
    using generate_summary_eq[OF assms c, of ul cn closes] counts_as_filters(1,2)[OF c]
    by (simp add: conclusion_def r)
qed

text \<open>
  Lists of 10 positive, 2 negative and 3 neutral articles, of 2 positive and 10 negative
  ones, and of 5 of each.
\<close>

theorem closing_statement_ratio_rule_witness:
  "news_articles (example_state (replicate 10 up_article @ replicate 2 down_article @ replicate 3 flat_article)) \<noteq> []
   \<and> (\<exists>s. generate_summary example_lower example_scorer ''Acme'' (fetch_stock_data [100, 105]
               (example_state (replicate 10 up_article @ replicate 2 down_article @ replicate 3 flat_article)))
            = Inr (Summary s)
        \<and> positive_count s = 10 \<and> negative_count s = 2
        \<and> closing_statement s = Strongly_Positive)
   \<and> (\<exists>s. generate_summary example_lower example_scorer ''Acme'' (fetch_stock_data [100, 105]
               (example_state (replicate 2 up_article @ replicate 10 down_article @ replicate 0 flat_article)))
            = Inr (Summary s)
        \<and> positive_count s = 2 \<and> negative_count s = 10
        \<and> closing_statement s = Concerning)
   \<and> (\<exists>s. generate_summary example_lower example_scorer ''Acme'' (fetch_stock_data [100, 105]
               (example_state (replicate 5 up_article @ replicate 5 down_article @ replicate 5 flat_article)))
            = Inr (Summary s)
        \<and> positive_count s = 5 \<and> negative_count s = 5
        \<and> closing_statement s = Balanced)"
proof -
  have h: "news_articles (example_state (replicate (Suc i) up_article @ replicate j down_article @ replicate k flat_article)) \<noteq> []"
    for i j k by (simp add: example_state_articles)
  have n: "(10::nat) = Suc 9" "(2::nat) = Suc 1" "(5::nat) = Suc 4" by simp_all
  have a: "\<exists>s. generate_summary example_lower example_scorer ''Acme'' (fetch_stock_data [100, 105]
               (example_state (replicate 10 up_article @ replicate 2 down_article @ replicate 3 flat_article)))
            = Inr (Summary s)
        \<and> positive_count s = 10 \<and> negative_count s = 2
        \<and> closing_statement s = Strongly_Positive"
    using closing_statement_ratio_rule[OF h[of 9 2 3], of example_lower example_scorer "''Acme''" "[100, 105]",
        unfolded example_state_articles example_filters length_replicate]
    unfolding n(1)[symmetric] by auto
  have b: "\<exists>s. generate_summary example_lower example_scorer ''Acme'' (fetch_stock_data [100, 105]
               (example_state (replicate 2 up_article @ replicate 10 down_article @ replicate 0 flat_article)))
            = Inr (Summary s)
        \<and> positive_count s = 2 \<and> negative_count s = 10
        \<and> closing_statement s = Concerning"
    using closing_statement_ratio_rule[OF h[of 1 10 0], of example_lower example_scorer "''Acme''" "[100, 105]",
        unfolded example_state_articles example_filters length_replicate]
    unfolding n(2)[symmetric] by auto
  have c: "\<exists>s. generate_summary example_lower example_scorer ''Acme'' (fetch_stock_data [100, 105]
               (example_state (replicate 5 up_article @ replicate 5 down_article @ replicate 5 flat_article)))
            = Inr (Summary s)
        \<and> positive_count s = 5 \<and> negative_count s = 5
        \<and> closing_statement s = Balanced"
    using closing_statement_ratio_rule[OF h[of 4 5 5], of example_lower example_scorer "''Acme''" "[100, 105]",
        unfolded example_state_articles example_filters length_replicate]
    unfolding n(3)[symmetric] by auto
  show ?thesis using h[of 9 2 3] a b c unfolding n(1)[symmetric] by blast
qed

text \<open>
  C5. When the loop collects no article, \<^verbatim>\<open>fetch_news\<close> returns \<open>False\<close> and
  leaves the state as it was; on a state without articles \<^verbatim>\<open>generate_summary\<close>
  returns the no-data message and not the division error that the percentage of an empty
  list would raise; and the run of \<^verbatim>\<open>main\<close> stops before the summary.
\<close>

theorem no_articles_no_division:
  assumes "news_articles st = []"
    and "fst (fetch_loop (ladder_results api cn (ticker_short st)) ([], {})) = []"
  shows "fetch_news api cn st = (False, st)
     \<and> generate_summary ul scorer cn (snd (fetch_news api cn st)) = Inr No_articles
     \<and> generate_summary ul scorer cn (snd (fetch_news api cn st)) \<noteq> Inl ZeroDivisionError
     \<and> percent c (length (news_articles (snd (fetch_news api cn st)))) = Inl ZeroDivisionError
     \<and> (st = fetch_stock_data h (init t k) \<longrightarrow>
          main_analysis api h ul scorer cn t k = Cannot_proceed)"
proof -
  have a: "fetch_news api cn st = (False, st)"
    by (rule fetch_news_none[OF assms(2)])
  have b: "generate_summary ul scorer cn st = Inr No_articles"
    using assms(1) by (simp add: generate_summary_def)
  have c: "percent c (length (news_articles st)) = Inl ZeroDivisionError"
    using assms(1) by (simp add: percent_def)
  have d: "st = fetch_stock_data h (init t k) \<longrightarrow>
          main_analysis api h ul scorer cn t k = Cannot_proceed"
    using assms(2) main_analysis_none[of api cn h t k ul scorer] by blast
  show ?thesis using a b c d by simp
qed

text \<open>A fresh analyzer and a provider whose every request raises.\<close>

theorem no_articles_no_division_witness:
  "news_articles (init ''ACME.NS'' ''key'') = []
   \<and> fst (fetch_loop (ladder_results provider_down ''Acme'' (ticker_short (init ''ACME.NS'' ''key''))) ([], {})) = []
   \<and> fetch_news provider_down ''Acme'' (init ''ACME.NS'' ''key'') = (False, init ''ACME.NS'' ''key'')
   \<and> generate_summary example_lower example_scorer ''Acme'' (snd (fetch_news provider_down ''Acme'' (init ''ACME.NS'' ''key'')))
       = Inr No_articles
   \<and> main_analysis provider_down [100, 105] example_lower example_scorer ''Acme'' ''ACME.NS'' ''key'' = Cannot_proceed"
proof -
  have a: "news_articles (init ''ACME.NS'' ''key'') = []" by (simp add: init_def)
  have b: "fst (fetch_loop (ladder_results provider_down ''Acme'' (ticker_short (init ''ACME.NS'' ''key''))) ([], {})) = []"
    by (simp add: ladder_results_def search_queries_def provider_down_def)
  have c: "main_analysis provider_down [100, 105] example_lower example_scorer ''Acme'' ''ACME.NS'' ''key'' = Cannot_proceed"
    by (simp add: main_analysis_def fetch_news_def ladder_results_def search_queries_def
        provider_down_def Let_def)
  from no_articles_no_division[OF a b, of example_lower example_scorer 0] a b c show ?thesis by blast
qed



text \<open>
  C8. For a non-empty article list and any fetched price series, the summary is returned,
  and it holds the price context exactly when the series has at least two points. When the
  previous close is not zero, the change is the difference of the last two closes over the
  previous one times 100, each of the three operations rounded to a double: it differs from
  the exact value of that formula by at most the fraction \<open>2\<^sup>-\<^sup>5\<^sup>0\<close> of it. The context
  shows the current close and the change, both rounded to two decimals. The closes 100 and
  105 give a change of 5.
\<close>

theorem price_context_two_points:
  assumes "news_articles st \<noteq> []"
  shows "\<exists>s. generate_summary ul scorer cn (fetch_stock_data closes st) = Inr (Summary s)
     \<and> (market s \<noteq> None \<longleftrightarrow> 2 \<le> length closes)
     \<and> (2 \<le> length closes \<and> last (butlast closes) \<noteq> 0 \<longrightarrow>
          (\<exists>v. price_change closes = Fin v
             \<and> v = float64 (float64 (float64 (float64 (last closes) - float64 (last (butlast closes)))
                                       / float64 (last (butlast closes))) * 100)
             \<and> \<bar>v - (float64 (last closes) - float64 (last (butlast closes)))
                        / float64 (last (butlast closes)) * 100\<bar>
                 \<le> \<bar>(float64 (last closes) - float64 (last (butlast closes)))
                        / float64 (last (butlast closes)) * 100\<bar> / 2 ^ 50
             \<and> market s = Some (format_f 2 (float64 (last closes)), Fin (format_f 2 v))))
     \<and> price_change [100, 105] = Fin 5"
proof -
  obtain p n u where c: "count_sentiment scorer (news_articles st) (0, 0, 0) = (p, n, u)"
    by (metis prod_cases3)
  let ?cur = "float64 (last closes)" and ?prev = "float64 (last (butlast closes))"
  let ?v = "float64 (float64 (float64 (?cur - ?prev) / ?prev) * 100)"
  obtain s where s: "generate_summary ul scorer cn (fetch_stock_data closes st) = Inr (Summary s)"
    and m: "market s = (if length closes > 1
                  then Some (format_f 2 (float64 (closes ! (length closes - 1))),
                             format_fval 2 (price_change closes))
                  else None)"
    using generate_summary_eq[OF assms c, of ul cn closes] by simp
  have 1: "market s \<noteq> None \<longleftrightarrow> 2 \<le> length closes"
    unfolding m by auto
  have 2: "2 \<le> length closes \<and> last (butlast closes) \<noteq> 0 \<longrightarrow>
          (\<exists>v. price_change closes = Fin v \<and> v = ?v
             \<and> \<bar>v - (?cur - ?prev) / ?prev * 100\<bar> \<le> \<bar>(?cur - ?prev) / ?prev * 100\<bar> / 2 ^ 50
             \<and> market s = Some (format_f 2 ?cur, Fin (format_f 2 v)))"
  proof
    assume a: "2 \<le> length closes \<and> last (butlast closes) \<noteq> 0"
    then have pc: "price_change closes = Fin ?v" by (simp add: price_change_eq)
    have l: "closes ! (length closes - 1) = last closes" using a by (intro last_as_nth) simp
    have ms: "market s = Some (format_f 2 ?cur, Fin (format_f 2 ?v))"
      unfolding m l pc using a by simp
    have "\<bar>?v - (?cur - ?prev) / ?prev * 100\<bar> \<le> \<bar>(?cur - ?prev) / ?prev * 100\<bar> / 2 ^ 50"
      by (rule change_error)
    with pc ms show "\<exists>v. price_change closes = Fin v \<and> v = ?v
             \<and> \<bar>v - (?cur - ?prev) / ?prev * 100\<bar> \<le> \<bar>(?cur - ?prev) / ?prev * 100\<bar> / 2 ^ 50
             \<and> market s = Some (format_f 2 ?cur, Fin (format_f 2 v))"
      by blast
  qed
  have 3: "price_change [100, 105] = Fin 5" by code_simp
  show ?thesis by (rule exI[of _ s]) (intro conjI s 1 2 3)
qed

text \<open>
  The closes 100 and 105 show 105.00 and a change of 5.00; the closes 160 and 183 show a
  change of 14.37, the double just below 14.375; a series of a single close shows nothing.
\<close>

theorem price_context_two_points_witness:
  "news_articles (example_state [up_article]) \<noteq> []
   \<and> (\<exists>s. generate_summary example_lower example_scorer ''Acme''
             (fetch_stock_data [100, 105] (example_state [up_article])) = Inr (Summary s)
        \<and> market s = Some (105, Fin 5))
   \<and> (\<exists>s. generate_summary example_lower example_scorer ''Acme''
             (fetch_stock_data [160, 183] (example_state [up_article])) = Inr (Summary s)
        \<and> market s = Some (183, Fin (1437 / 100)))
   \<and> (\<exists>s. generate_summary example_lower example_scorer ''Acme''
             (fetch_stock_data [100] (example_state [up_article])) = Inr (Summary s)
        \<and> market s = None)
   \<and> \<bar>(5::rat) - 5\<bar> \<le> 1 / 100"
proof -
  have h: "news_articles (example_state [up_article]) \<noteq> []"
    by (simp add: example_state_articles)
  have f: "format_f 2 (float64 105) = 105"
    "format_f 2 (float64 (float64 (float64 (float64 105 - float64 100) / float64 100) * 100)) = 5"
    "format_f 2 (float64 183) = 183"
    "format_f 2 (float64 (float64 (float64 (float64 183 - float64 160) / float64 160) * 100))
       = 1437 / 100"
    by code_simp+
  have a: "\<exists>s. generate_summary example_lower example_scorer ''Acme''
             (fetch_stock_data [100, 105] (example_state [up_article])) = Inr (Summary s)
        \<and> market s = Some (105, Fin 5)"
  proof -
    from price_context_two_points[OF h, of example_lower example_scorer "''Acme''" "[100, 105]"]
    obtain s v where "generate_summary example_lower example_scorer ''Acme''
             (fetch_stock_data [100, 105] (example_state [up_article])) = Inr (Summary s)"
      and "v = float64 (float64 (float64 (float64 105 - float64 100) / float64 100) * 100)"
      and "market s = Some (format_f 2 (float64 105), Fin (format_f 2 v))"
      by auto
    with f(1,2) show ?thesis by auto
  qed
  have b: "\<exists>s. generate_summary example_lower example_scorer ''Acme''
             (fetch_stock_data [160, 183] (example_state [up_article])) = Inr (Summary s)
        \<and> market s = Some (183, Fin (1437 / 100))"
  proof -
    from price_context_two_points[OF h, of example_lower example_scorer "''Acme''" "[160, 183]"]
    obtain s v where "generate_summary example_lower example_scorer ''Acme''
             (fetch_stock_data [160, 183] (example_state [up_article])) = Inr (Summary s)"
      and "v = float64 (float64 (float64 (float64 183 - float64 160) / float64 160) * 100)"
      and "market s = Some (format_f 2 (float64 183), Fin (format_f 2 v))"
      by auto
    with f(3,4) show ?thesis by auto
  qed
  have c: "\<exists>s. generate_summary example_lower example_scorer ''Acme''
             (fetch_stock_data [100] (example_state [up_article])) = Inr (Summary s)
        \<and> market s = None"
  proof -
    from price_context_two_points[OF h, of example_lower example_scorer "''Acme''" "[100]"]
    obtain s where g: "generate_summary example_lower example_scorer ''Acme''
             (fetch_stock_data [100] (example_state [up_article])) = Inr (Summary s)"
      and m: "market s \<noteq> None \<longleftrightarrow> 2 \<le> length [100::rat]"
      by blast
    have "\<not> 2 \<le> length [100::rat]" by simp
    with m have "market s = None" by blast
    with g show ?thesis by blast
  qed
  show ?thesis using h a b c by simp
qed

text \<open>
  C9. For a non-empty article list, and whatever price history has been fetched, the
  summary is returned and its header follows the simple majority
  of the positive and negative counts, while the closing statement follows the ratio rule;
  with 4 positive and 3 negative articles the header is predominantly positive and the
  closing statement balanced.
\<close>

theorem overall_header_simple_majority:
  assumes "news_articles st \<noteq> []"
  shows "\<exists>s. generate_summary ul scorer cn (fetch_stock_data closes st) = Inr (Summary s)
     \<and> positive_count s = length (filter (\<lambda>a. scorer (article_text a) > 1 / 10) (news_articles st))
     \<and> negative_count s = length (filter (\<lambda>a. scorer (article_text a) < - (1 / 10)) (news_articles st))
     \<and> overall_line s =
        (if positive_count s > negative_count s then Predominantly_Positive
         else if negative_count s > positive_count s then Predominantly_Negative
         else Mixed)
     \<and> closing_statement s = conclusion (positive_count s) (negative_count s)
     \<and> (positive_count s = 4 \<and> negative_count s = 3 \<longrightarrow>
          overall_line s = Predominantly_Positive \<and> closing_statement s = Balanced)"
proof -
  obtain p n u where c: "count_sentiment scorer (news_articles st) (0, 0, 0) = (p, n, u)"
    by (metis prod_cases3)
  show ?thesis
    using generate_summary_eq[OF assms c, of ul cn closes] counts_as_filters(1,2)[OF c]
    by (simp add: overall_sentiment_def conclusion_def)
qed

text \<open>Four positive and three negative articles.\<close>

theorem overall_header_simple_majority_witness:
  "news_articles (example_state (replicate 4 up_article @ replicate 3 down_article @ replicate 0 flat_article)) \<noteq> []
   \<and> (\<exists>s. generate_summary example_lower example_scorer ''Acme'' (fetch_stock_data [100, 105]
               (example_state (replicate 4 up_article @ replicate 3 down_article @ replicate 0 flat_article)))
            = Inr (Summary s)
        \<and> positive_count s = 4 \<and> negative_count s = 3
        \<and> overall_line s = Predominantly_Positive
        \<and> closing_statement s = Balanced)"
proof -
  have h: "news_articles (example_state (replicate 4 up_article @ replicate 3 down_article @ replicate 0 flat_article)) \<noteq> []"
    by (simp add: example_state_articles)
  have "\<exists>s. generate_summary example_lower example_scorer ''Acme'' (fetch_stock_data [100, 105]
               (example_state (replicate 4 up_article @ replicate 3 down_article @ replicate 0 flat_article)))
            = Inr (Summary s)
        \<and> positive_count s = 4 \<and> negative_count s = 3
        \<and> overall_line s = Predominantly_Positive
        \<and> closing_statement s = Balanced"
    using overall_header_simple_majority[OF h, of example_lower example_scorer "''Acme''" "[100, 105]",
        unfolded example_state_articles example_filters length_replicate]
    by auto
  with h show ?thesis by blast
qed

end
